theory Spec2Isabelle
  imports Main
begin

section \<open>BookNotes bot: the book and note state of \<^verbatim>\<open>src/bot.py\<close>\<close>

text \<open>
  The bot keeps two document collections, \<^verbatim>\<open>books\<close> and \<^verbatim>\<open>users\<close>. Every handler of
  \<^verbatim>\<open>BookNotesBot\<close> reads and writes them and answers with one message. A handler is
  modelled as a function from the store and the contents of the incoming update to the
  new store and the answer. The clock (\<^verbatim>\<open>datetime.utcnow()\<close>), the transcription service and
  the chat-completion service are inputs of the handler that consults them; an exception
  of a service is the value \<open>None\<close>. An exception that the handler does not catch is the
  answer \<open>Raised\<close>, with the store as the handler left it. Updates are handled one after
  the other; a store operation and the sending of an answer are taken to succeed.
\<close>

subsection \<open>Documents\<close>

datatype oid = Oid nat nat
  \<comment> \<open>a \<^verbatim>\<open>bson.ObjectId\<close>: \<open>Oid n v\<close> has \<open>n\<close> bytes, which read as the big-endian number \<open>v\<close>;
      the ids that the store gives out have twelve bytes\<close>
type_synonym time = nat
  \<comment> \<open>a \<^verbatim>\<open>datetime\<close>, as a number of clock ticks\<close>

datatype note_kind = Text | Voice

record book_note =
  content :: string
  note_type :: note_kind
  timestamp :: time
  message_id :: int
  duration :: "int option"
    \<comment> \<open>the key \<^verbatim>\<open>duration\<close> exists in voice notes only\<close>

datatype status = Reading | Finished
  \<comment> \<open>the strings \<^verbatim>\<open>"reading"\<close> and \<^verbatim>\<open>"finished"\<close>, the only two the code writes\<close>

record book =
  book_id :: oid
    \<comment> \<open>\<^verbatim>\<open>_id\<close>, assigned by the store\<close>
  owner_id :: int
    \<comment> \<open>\<^verbatim>\<open>user_id\<close> of a book document\<close>
  title :: string
  book_notes :: "book_note list"
  status :: status
  created_at :: time
  finished_at :: "time option"
  ai_review :: "string option"
  review_generated_at :: "time option"
    \<comment> \<open>\<^verbatim>\<open>ai_review\<close> and \<^verbatim>\<open>review_generated_at\<close> are absent until a review is saved\<close>

record user =
  user_id :: int
  username :: string
  last_active :: time
  user_created_at :: time
    \<comment> \<open>\<^verbatim>\<open>created_at\<close> of a user document\<close>
  current_book_id :: "oid option"

record db =
  books_collection :: "book list"
  users_collection :: "user list"
  next_oid :: nat
    \<comment> \<open>the next inserted book gets the id \<open>Oid 12 (next_oid d)\<close>\<close>

definition empty_db :: db where
  "empty_db = \<lparr>books_collection = [], users_collection = [], next_oid = 0\<rparr>"

subsection \<open>Store operations\<close>

text \<open>
  A collection is the list of its documents in insertion order, which is the order a
  query without \<^verbatim>\<open>sort\<close> returns them in. \<^verbatim>\<open>find_one\<close> returns the first match,
  \<^verbatim>\<open>update_one\<close> changes the first match and nothing when there is none, unless it is an
  upsert.
\<close>

definition find_one :: "('a \<Rightarrow> bool) \<Rightarrow> 'a list \<Rightarrow> 'a option" where
  "find_one p xs = List.find p xs"

fun update_one :: "('a \<Rightarrow> bool) \<Rightarrow> ('a \<Rightarrow> 'a) \<Rightarrow> 'a list \<Rightarrow> 'a list" where
  "update_one p f [] = []"
| "update_one p f (x # xs) = (if p x then f x # xs else x # update_one p f xs)"

definition upsert_one :: "('a \<Rightarrow> bool) \<Rightarrow> ('a \<Rightarrow> 'a) \<Rightarrow> 'a \<Rightarrow> 'a list \<Rightarrow> 'a list" where
  "upsert_one p f new xs = (if find_one p xs = None then xs @ [new] else update_one p f xs)"

definition insert_book :: "book \<Rightarrow> db \<Rightarrow> oid \<times> db" where
  "insert_book doc d =
     (Oid 12 (next_oid d),
      d\<lparr>books_collection := books_collection d @ [doc\<lparr>book_id := Oid 12 (next_oid d)\<rparr>],
        next_oid := Suc (next_oid d)\<rparr>)"

definition by_user :: "int \<Rightarrow> user \<Rightarrow> bool" where
  "by_user uid u = (user_id u = uid)"

definition by_id :: "oid \<Rightarrow> book \<Rightarrow> bool" where
  "by_id i b = (book_id b = i)"

definition by_owner :: "int \<Rightarrow> book \<Rightarrow> bool" where
  "by_owner uid b = (owner_id b = uid)"

subsection \<open>Python helpers\<close>

fun py_join :: "string \<Rightarrow> string list \<Rightarrow> string" where
  "py_join sep [] = []"
| "py_join sep [x] = x"
| "py_join sep (x # y # ys) = x @ sep @ py_join sep (y # ys)"

fun py_split :: "char \<Rightarrow> string \<Rightarrow> string list" where
  "py_split sep [] = [[]]"
| "py_split sep (c # cs) =
     (if c = sep then [] # py_split sep cs
      else (case py_split sep cs of [] \<Rightarrow> [[c]] | p # ps \<Rightarrow> (c # p) # ps))"

definition startswith :: "string \<Rightarrow> string \<Rightarrow> bool" where
  "startswith s p = (take (length p) s = p)"

definition digit_char :: "nat \<Rightarrow> char" where
  "digit_char d = char_of (48 + d)"

fun str_nat :: "nat \<Rightarrow> string" where
  "str_nat n = (if n < 10 then [digit_char n] else str_nat (n div 10) @ [digit_char (n mod 10)])"

declare str_nat.simps [simp del]

definition is_space :: "char \<Rightarrow> bool" where
  "is_space c = (of_char c \<in> {9, 10, 11, 12, 13, 28, 29, 30, 31, 32, 133, 160 :: nat})"
  \<comment> \<open>\<^verbatim>\<open>str.isspace\<close> on the code points below 256\<close>

definition strip :: "string \<Rightarrow> string" where
  "strip s = rev (dropWhile is_space (rev (dropWhile is_space s)))"

datatype error = InvalidId | TypeError | IndexError | ValueError

definition hex_value :: "char \<Rightarrow> nat option" where
  "hex_value c =
     (let n = (of_char c :: nat) in
      if 48 \<le> n \<and> n \<le> 57 then Some (n - 48)
      else if 97 \<le> n \<and> n \<le> 102 then Some (n - 87)
      else if 65 \<le> n \<and> n \<le> 70 then Some (n - 55)
      else None)"

definition is_ascii_space :: "char \<Rightarrow> bool" where
  "is_ascii_space c = (of_char c \<in> {9, 10, 11, 12, 13, 32 :: nat})"

text \<open>
  \<^verbatim>\<open>bytes.fromhex\<close> reads two hexadecimal digits for each byte and skips ASCII whitespace
  before a byte. The loop is modelled with its state: the number of bytes read so far and
  their big-endian value.
\<close>

fun fromhex :: "nat \<Rightarrow> nat \<Rightarrow> string \<Rightarrow> (nat \<times> nat) option" where
  "fromhex n v [] = Some (n, v)"
| "fromhex n v (c # cs) =
     (if is_ascii_space c then fromhex n v cs
      else (case cs of
              [] \<Rightarrow> None
            | c' # cs' \<Rightarrow>
                (case hex_value c of
                   None \<Rightarrow> None
                 | Some hi \<Rightarrow>
                     (case hex_value c' of
                        None \<Rightarrow> None
                      | Some lo \<Rightarrow> fromhex (Suc n) (256 * v + 16 * hi + lo) cs'))))"

definition ObjectId :: "string \<Rightarrow> error + oid" where
  "ObjectId s =
     (if length s = 24 then
        (case fromhex 0 0 s of None \<Rightarrow> Inl InvalidId | Some (n, v) \<Rightarrow> Inr (Oid n v))
      else Inl InvalidId)"
  \<comment> \<open>\<^verbatim>\<open>ObjectId(str)\<close>: a string of 24 characters that \<^verbatim>\<open>bytes.fromhex\<close> accepts; anything
      else raises \<^verbatim>\<open>InvalidId\<close>. With whitespace in the string the id has fewer than
      twelve bytes.\<close>

fun max_from :: "('a \<Rightarrow> nat) \<Rightarrow> 'a \<Rightarrow> 'a list \<Rightarrow> 'a" where
  "max_from key best [] = best"
| "max_from key best (x # xs) = max_from key (if key best < key x then x else best) xs"

definition py_max :: "('a \<Rightarrow> nat) \<Rightarrow> 'a list \<Rightarrow> error + 'a" where
  "py_max key xs = (case xs of [] \<Rightarrow> Inl ValueError | x # ys \<Rightarrow> Inr (max_from key x ys))"
  \<comment> \<open>\<^verbatim>\<open>max(xs, key=key)\<close> keeps the first of several maximal items\<close>

subsection \<open>Answers\<close>

datatype reply =
    Welcome
  | HelpText
  | ProvideTitle
  | StartedTracking string
  | NoBooksYet
  | BooksList "(string \<times> status \<times> nat \<times> bool) list"
  | NoActiveBookSet
  | CurrentBookInfo string nat status time
  | NoActiveBooksFound
  | OnlyOneActive string
  | SwitchMenu "(string \<times> string) list"
  | NoActiveBook
  | Switched string
  | NoReply
  | NoteSaved string
  | VoiceSaved string string
  | VoiceFailed
  | NoNotesFound string
  | ReviewSent string nat string
  | ReviewFailed
  | MarkedFinished string nat
  | NoStats
  | Stats nat nat nat nat string nat
  | Raised error

subsection \<open>Handlers\<close>

definition get_current_book :: "db \<Rightarrow> int \<Rightarrow> book option" where
  "get_current_book d uid =
     (case find_one (by_user uid) (users_collection d) of
        None \<Rightarrow> None
      | Some u \<Rightarrow>
          (case current_book_id u of
             None \<Rightarrow> None
           | Some bid \<Rightarrow> find_one (by_id bid) (books_collection d)))"

definition display_name :: "string option \<Rightarrow> string" where
  "display_name un = (case un of None \<Rightarrow> ''Anonymous'' | Some s \<Rightarrow> if s = [] then ''Anonymous'' else s)"
  \<comment> \<open>\<^verbatim>\<open>update.effective_user.username or "Anonymous"\<close>\<close>

definition start_command :: "db \<Rightarrow> int \<Rightarrow> string option \<Rightarrow> time \<Rightarrow> time \<Rightarrow> db \<times> reply" where
  "start_command d uid un now now' =
     (d\<lparr>users_collection :=
          upsert_one (by_user uid)
            (\<lambda>u. u\<lparr>username := display_name un, last_active := now\<rparr>)
            \<lparr>user_id = uid, username = display_name un, last_active = now,
             user_created_at = now', current_book_id = None\<rparr>
            (users_collection d)\<rparr>,
      Welcome)"
  \<comment> \<open>\<open>now\<close> and \<open>now'\<close> are the two clock readings of the update document\<close>

definition new_book_command :: "db \<Rightarrow> int \<Rightarrow> string list \<Rightarrow> time \<Rightarrow> db \<times> reply" where
  "new_book_command d uid args now =
     (if args = [] then (d, ProvideTitle)
      else
        let title = py_join '' '' args;
            book_doc = \<lparr>book_id = Oid 12 0, owner_id = uid, title = title, book_notes = [],
                        status = Reading, created_at = now, finished_at = None,
                        ai_review = None, review_generated_at = None\<rparr>;
            (bid, d1) = insert_book book_doc d;
            d2 = d1\<lparr>users_collection :=
                      update_one (by_user uid) (\<lambda>u. u\<lparr>current_book_id := Some bid\<rparr>)
                        (users_collection d1)\<rparr>
        in (d2, StartedTracking title))"
  \<comment> \<open>\<open>book_doc\<close> has no \<^verbatim>\<open>_id\<close> in the source; \<open>insert_book\<close> sets the field\<close>

text \<open>
  The commands that only read the store. A query with \<^verbatim>\<open>sort("created_at", -1)\<close> returns
  the newest book first; books with the same \<^verbatim>\<open>created_at\<close> come in an order that the
  store does not promise, here the later inserted first.
\<close>

definition newest_first :: "book list \<Rightarrow> book list" where
  "newest_first bks = rev (sort_key created_at bks)"

definition help_command :: "db \<Rightarrow> db \<times> reply" where
  "help_command d = (d, HelpText)"

definition my_books_command :: "db \<Rightarrow> int \<Rightarrow> db \<times> reply" where
  "my_books_command d uid =
     (let books = newest_first (filter (by_owner uid) (books_collection d)) in
      if books = [] then (d, NoBooksYet)
      else
        let user = find_one (by_user uid) (users_collection d);
            current = (case user of None \<Rightarrow> None | Some u \<Rightarrow> current_book_id u)
        in (d, BooksList
                 (map (\<lambda>b. (title b, status b, length (book_notes b), Some (book_id b) = current))
                    books)))"

definition current_book_command :: "db \<Rightarrow> int \<Rightarrow> db \<times> reply" where
  "current_book_command d uid =
     (case get_current_book d uid of
        None \<Rightarrow> (d, NoActiveBookSet)
      | Some current_book \<Rightarrow>
          (d, CurrentBookInfo (title current_book) (length (book_notes current_book))
                (status current_book) (created_at current_book)))"

text \<open>
  The menu of \<^verbatim>\<open>switch_book_command\<close> has one button for each book of the user that is
  being read. The callback data of the button is \<^verbatim>\<open>switch_\<close> and the id of the book, which
  prints as 24 hexadecimal digits.
\<close>

definition hex_char :: "nat \<Rightarrow> char" where
  "hex_char d = ''0123456789abcdef'' ! d"

fun hex_digits :: "nat \<Rightarrow> nat \<Rightarrow> string" where
  "hex_digits 0 n = []"
| "hex_digits (Suc k) n = hex_digits k (n div 16) @ [hex_char (n mod 16)]"

fun str_oid :: "oid \<Rightarrow> string" where
  "str_oid (Oid n v) = hex_digits (2 * n) v"

definition switch_callback_data :: "book \<Rightarrow> string" where
  "switch_callback_data b = ''switch_'' @ str_oid (book_id b)"

definition switch_button :: "book \<Rightarrow> string \<times> string" where
  "switch_button b =
     (title b @ '' ('' @ str_nat (length (book_notes b)) @ '' notes)'', switch_callback_data b)"

definition switch_book_command :: "db \<Rightarrow> int \<Rightarrow> db \<times> reply" where
  "switch_book_command d uid =
     (let books = newest_first
                    (filter (\<lambda>b. owner_id b = uid \<and> status b = Reading) (books_collection d)) in
      if books = [] then (d, NoActiveBooksFound)
      else (case books of
              [b] \<Rightarrow> (d, OnlyOneActive (title b))
            | _ \<Rightarrow> (d, SwitchMenu (map switch_button books))))"

definition handle_callback_query :: "db \<Rightarrow> int \<Rightarrow> string \<Rightarrow> db \<times> reply" where
  "handle_callback_query d uid data =
     (if startswith data ''switch_'' then
        (case py_split (CHR ''_'') data of
           _ # part # _ \<Rightarrow>
             (case ObjectId part of
                Inl e \<Rightarrow> (d, Raised e)
              | Inr bid \<Rightarrow>
                  let d1 = d\<lparr>users_collection :=
                               update_one (by_user uid) (\<lambda>u. u\<lparr>current_book_id := Some bid\<rparr>)
                                 (users_collection d)\<rparr>
                  in (case find_one (by_id bid) (books_collection d1) of
                        None \<Rightarrow> (d1, Raised TypeError)
                      | Some b \<Rightarrow> (d1, Switched (title b))))
         | _ \<Rightarrow> (d, Raised IndexError))
      else (d, NoReply))"

definition push_note :: "book_note \<Rightarrow> book \<Rightarrow> book" where
  "push_note n b = b\<lparr>book_notes := book_notes b @ [n]\<rparr>"
  \<comment> \<open>the update \<^verbatim>\<open>{"$push": {"notes": note}}\<close>\<close>

definition handle_text_note :: "db \<Rightarrow> int \<Rightarrow> string \<Rightarrow> int \<Rightarrow> time \<Rightarrow> db \<times> reply" where
  "handle_text_note d uid text_content mid now =
     (case get_current_book d uid of
        None \<Rightarrow> (d, NoActiveBook)
      | Some current_book \<Rightarrow>
          let note = \<lparr>content = text_content, note_type = Text, timestamp = now,
                      message_id = mid, duration = None\<rparr>
          in (d\<lparr>books_collection :=
                  update_one (by_id (book_id current_book)) (push_note note) (books_collection d)\<rparr>,
              NoteSaved (title current_book)))"

definition handle_voice_note ::
    "db \<Rightarrow> int \<Rightarrow> string option \<Rightarrow> int \<Rightarrow> int \<Rightarrow> time \<Rightarrow> db \<times> reply" where
  "handle_voice_note d uid transcript mid dur now =
     (case get_current_book d uid of
        None \<Rightarrow> (d, NoActiveBook)
      | Some current_book \<Rightarrow>
          (case transcript of
             None \<Rightarrow> (d, VoiceFailed)
           | Some transcribed_text \<Rightarrow>
               let note = \<lparr>content = transcribed_text, note_type = Voice, timestamp = now,
                           message_id = mid, duration = Some dur\<rparr>
               in (d\<lparr>books_collection :=
                       update_one (by_id (book_id current_book)) (push_note note)
                         (books_collection d)\<rparr>,
                   VoiceSaved (title current_book) transcribed_text)))"
  \<comment> \<open>\<open>transcript\<close> is the outcome of downloading and transcribing the voice file:
      \<open>None\<close> when any step of it raises\<close>

definition nl :: string where
  "nl = [CHR 0x0A]"

definition note_block :: "nat \<Rightarrow> book_note \<Rightarrow> string" where
  "note_block i n = ''Note '' @ str_nat (i + 1) @ '': '' @ content n"

definition notes_text :: "book_note list \<Rightarrow> string" where
  "notes_text ns = py_join (nl @ nl) (map (\<lambda>(i, n). note_block i n) (enumerate 0 ns))"

text \<open>
  The prompt of \<^verbatim>\<open>generate_ai_review\<close> is one f-string with two holes: the text up to the
  notes, which holds the title, the notes, and the text after them.
\<close>

definition prompt_head :: "string \<Rightarrow> string" where
  "prompt_head book_title =
     nl @ ''Based on the following personal reading notes for the book '' @ [CHR 0x22]
        @ book_title @ [CHR 0x22]
        @ '', write a thoughtful and comprehensive book review. '' @ nl
     @ nl
     @ ''Reading Notes:'' @ nl"

definition prompt_tail :: string where
  "prompt_tail =
     nl
     @ nl
     @ ''Please write a review that covers:'' @ nl
     @ ''1. Overall impression and rating'' @ nl
     @ ''2. Key themes and main ideas'' @ nl
     @ ''3. Strengths and notable aspects'' @ nl
     @ ''4. Any criticisms or weaknesses mentioned'' @ nl
     @ ''5. Personal takeaways and recommendations'' @ nl
     @ nl
     @ ''Write in a personal, engaging tone as if the reader took these notes themselves. ''
     @ ''Keep it concise but insightful (200-400 words).'' @ nl
     @ ''        ''"

definition review_prompt :: "string \<Rightarrow> string \<Rightarrow> string" where
  "review_prompt book_title ntext = prompt_head book_title @ ntext @ prompt_tail"

definition generate_ai_review :: "(string \<Rightarrow> string option) \<Rightarrow> string \<Rightarrow> string \<Rightarrow> string option" where
  "generate_ai_review llm book_title ntext = map_option strip (llm (review_prompt book_title ntext))"
  \<comment> \<open>\<open>llm\<close> is the chat completion on the user prompt: \<open>None\<close> when the call raises\<close>

definition save_review :: "string \<Rightarrow> time \<Rightarrow> book \<Rightarrow> book" where
  "save_review review now b = b\<lparr>ai_review := Some review, review_generated_at := Some now\<rparr>"

definition generate_review_command ::
    "db \<Rightarrow> int \<Rightarrow> (string \<Rightarrow> string option) \<Rightarrow> time \<Rightarrow> db \<times> reply" where
  "generate_review_command d uid llm now =
     (case get_current_book d uid of
        None \<Rightarrow> (d, NoActiveBook)
      | Some current_book \<Rightarrow>
          if book_notes current_book = [] then (d, NoNotesFound (title current_book))
          else
            (case generate_ai_review llm (title current_book) (notes_text (book_notes current_book)) of
               None \<Rightarrow> (d, ReviewFailed)
             | Some review \<Rightarrow>
                 (d\<lparr>books_collection :=
                      update_one (by_id (book_id current_book)) (save_review review now)
                        (books_collection d)\<rparr>,
                  ReviewSent (title current_book) (length (book_notes current_book)) review)))"

definition mark_finished :: "time \<Rightarrow> book \<Rightarrow> book" where
  "mark_finished now b = b\<lparr>status := Finished, finished_at := Some now\<rparr>"

definition finish_book_command :: "db \<Rightarrow> int \<Rightarrow> time \<Rightarrow> db \<times> reply" where
  "finish_book_command d uid now =
     (case get_current_book d uid of
        None \<Rightarrow> (d, NoActiveBook)
      | Some current_book \<Rightarrow>
          (d\<lparr>books_collection :=
               update_one (by_id (book_id current_book)) (mark_finished now) (books_collection d),
             users_collection :=
               update_one (by_user uid) (\<lambda>u. u\<lparr>current_book_id := None\<rparr>) (users_collection d)\<rparr>,
           MarkedFinished (title current_book) (length (book_notes current_book))))"

definition most_noted_book :: "book list \<Rightarrow> error + book" where
  "most_noted_book bks = py_max (\<lambda>b. length (book_notes b)) bks"

definition stats_command :: "db \<Rightarrow> int \<Rightarrow> db \<times> reply" where
  "stats_command d uid =
     (let bks = filter (by_owner uid) (books_collection d) in
      if bks = [] then (d, NoStats)
      else
        let total_books = length bks;
            finished_books = length (filter (\<lambda>b. status b = Finished) bks);
            reading_books = total_books - finished_books;
            total_notes = sum_list (map (\<lambda>b. length (book_notes b)) bks)
        in (case most_noted_book bks of
              Inl e \<Rightarrow> (d, Raised e)
            | Inr m \<Rightarrow>
                (d, Stats total_books finished_books reading_books total_notes
                      (title m) (length (book_notes m)))))"

subsection \<open>Runs\<close>

text \<open>One event per incoming update, with what the handler reads from it.\<close>

datatype event =
    Start int "string option" time time
  | Help
  | MyBooks int
  | CurrentBook int
  | SwitchBook int
  | NewBook int "string list" time
  | Callback int string
  | TextNote int string int time
  | VoiceNote int "string option" int int time
  | Review int "string \<Rightarrow> string option" time
  | Finish int time
  | StatsCmd int

fun step :: "db \<Rightarrow> event \<Rightarrow> db \<times> reply" where
  "step d (Start uid un now now') = start_command d uid un now now'"
| "step d Help = help_command d"
| "step d (MyBooks uid) = my_books_command d uid"
| "step d (CurrentBook uid) = current_book_command d uid"
| "step d (SwitchBook uid) = switch_book_command d uid"
| "step d (NewBook uid args now) = new_book_command d uid args now"
| "step d (Callback uid data) = handle_callback_query d uid data"
| "step d (TextNote uid txt mid now) = handle_text_note d uid txt mid now"
| "step d (VoiceNote uid tr mid dur now) = handle_voice_note d uid tr mid dur now"
| "step d (Review uid llm now) = generate_review_command d uid llm now"
| "step d (Finish uid now) = finish_book_command d uid now"
| "step d (StatsCmd uid) = stats_command d uid"

fun run :: "db \<Rightarrow> event list \<Rightarrow> db" where
  "run d [] = d"
| "run d (e # es) = run (fst (step d e)) es"

subsection \<open>Notions used in the statements\<close>

fun is_finish :: "event \<Rightarrow> bool" where
  "is_finish (Finish uid now) = True"
| "is_finish _ = False"

text \<open>The clock readings that an event stores as \<^verbatim>\<open>created_at\<close> of a new book.\<close>

fun created_by :: "event \<Rightarrow> time list" where
  "created_by (NewBook uid args now) = (if args = [] then [] else [now])"
| "created_by _ = []"

text \<open>The ids of the stored books are ids that the store gave out.\<close>

definition ids_fresh :: "db \<Rightarrow> bool" where
  "ids_fresh d = (\<forall>b\<in>set (books_collection d). \<exists>k<next_oid d. book_id b = Oid 12 k)"

text \<open>The book document that \<^verbatim>\<open>/newbook\<close> inserts, with the id the store gives it.\<close>

definition started_book :: "db \<Rightarrow> int \<Rightarrow> string list \<Rightarrow> time \<Rightarrow> book" where
  "started_book d uid args now =
     \<lparr>book_id = Oid 12 (next_oid d), owner_id = uid, title = py_join '' '' args, book_notes = [],
      status = Reading, created_at = now, finished_at = None, ai_review = None,
      review_generated_at = None\<rparr>"

text \<open>The user document that the upsert of \<^verbatim>\<open>/start\<close> inserts, and a series of \<^verbatim>\<open>/start\<close>
  updates of one user, each with its user name and its two clock readings.\<close>

definition fresh_user :: "int \<Rightarrow> string option \<Rightarrow> time \<Rightarrow> time \<Rightarrow> user" where
  "fresh_user uid un now now' =
     \<lparr>user_id = uid, username = display_name un, last_active = now,
      user_created_at = now', current_book_id = None\<rparr>"

definition start_calls :: "int \<Rightarrow> (string option \<times> time \<times> time) list \<Rightarrow> event list" where
  "start_calls uid calls = map (\<lambda>(un, now, now'). Start uid un now now') calls"

subsection \<open>Example stores\<close>

text \<open>
  User 1 with the book Dune: being read and current (\<open>reading_db\<close>), finished and no longer
  current (\<open>finished_db\<close>), finished and current again after a press on a button of a
  switch menu opened before (\<open>stale_db\<close>), and with two notes (\<open>noted_db\<close>). \<open>tie_db\<close> holds two books of
  user 1 with one note each.
\<close>

definition dune :: book where
  "dune = \<lparr>book_id = Oid 12 0, owner_id = 1, title = ''Dune'', book_notes = [], status = Reading,
           created_at = 10, finished_at = None, ai_review = None, review_generated_at = None\<rparr>"

definition ann :: user where
  "ann = \<lparr>user_id = 1, username = ''ann'', last_active = 1, user_created_at = 1,
          current_book_id = Some (Oid 12 0)\<rparr>"

definition reading_db :: db where
  "reading_db = \<lparr>books_collection = [dune], users_collection = [ann], next_oid = 1\<rparr>"

definition finished_db :: db where
  "finished_db =
     \<lparr>books_collection = [dune\<lparr>status := Finished, finished_at := Some 20\<rparr>],
      users_collection = [ann\<lparr>current_book_id := None\<rparr>], next_oid = 1\<rparr>"

definition stale_db :: db where
  "stale_db =
     \<lparr>books_collection = [dune\<lparr>status := Finished, finished_at := Some 20\<rparr>],
      users_collection = [ann], next_oid = 1\<rparr>"

definition note_a :: book_note where
  "note_a = \<lparr>content = ''A'', note_type = Text, timestamp = 11, message_id = 1, duration = None\<rparr>"

definition note_b :: book_note where
  "note_b = \<lparr>content = ''B'', note_type = Voice, timestamp = 12, message_id = 2, duration = Some 3\<rparr>"

definition noted_db :: db where
  "noted_db =
     \<lparr>books_collection = [dune\<lparr>title := ''T'', book_notes := [note_a, note_b]\<rparr>],
      users_collection = [ann], next_oid = 1\<rparr>"

definition book_A :: book where
  "book_A = \<lparr>book_id = Oid 12 0, owner_id = 1, title = ''A'', book_notes = [note_a], status = Reading,
             created_at = 10, finished_at = None, ai_review = None, review_generated_at = None\<rparr>"

definition book_B :: book where
  "book_B = \<lparr>book_id = Oid 12 1, owner_id = 1, title = ''B'', book_notes = [note_b], status = Reading,
             created_at = 20, finished_at = None, ai_review = None, review_generated_at = None\<rparr>"

definition tie_db :: db where
  "tie_db = \<lparr>books_collection = [book_A, book_B], users_collection = [ann], next_oid = 2\<rparr>"

text \<open>A language model that answers every prompt with the same text, one that answers with
  the prompt itself, and one that always fails.\<close>

definition stub_llm :: "string \<Rightarrow> string option" where
  "stub_llm prompt = Some '' STUB_REVIEW ''"

definition echo_llm :: "string \<Rightarrow> string option" where
  "echo_llm prompt = Some prompt"

definition failing_llm :: "string \<Rightarrow> string option" where
  "failing_llm prompt = None"

section \<open>Properties\<close>

subsection \<open>The store operations\<close>

lemma update_one_id: "update_one p (\<lambda>x. x) xs = xs"
  by (induction xs) auto

lemma length_update_one: "length (update_one p f xs) = length xs"
  by (induction xs) auto

lemma find_one_append:
  "find_one p (xs @ ys) = (case find_one p xs of None \<Rightarrow> find_one p ys | Some x \<Rightarrow> Some x)"
  by (induction xs) (auto simp: find_one_def)

lemma find_one_Some_split:
  "find_one p xs = Some x \<Longrightarrow> \<exists>pre post. xs = pre @ x # post \<and> p x \<and> (\<forall>y\<in>set pre. \<not> p y)"
proof (induction xs)
  case Nil
  then show ?case by (simp add: find_one_def)
next
  case (Cons a xs)
  show ?case
  proof (cases "p a")
    case True
    with Cons.prems have "a = x" by (simp add: find_one_def)
    with True have "a # xs = [] @ x # xs \<and> p x \<and> (\<forall>y\<in>set []. \<not> p y)" by simp
    then show ?thesis by blast
  next
    case False
    with Cons.prems have "find_one p xs = Some x" by (simp add: find_one_def)
    from Cons.IH [OF this] obtain pre post
      where "xs = pre @ x # post" "p x" "\<forall>y\<in>set pre. \<not> p y" by blast
    with False have "a # xs = (a # pre) @ x # post \<and> p x \<and> (\<forall>y\<in>set (a # pre). \<not> p y)"
      by simp
    then show ?thesis by blast
  qed
qed

lemma update_one_split:
  "p x \<Longrightarrow> \<forall>y\<in>set pre. \<not> p y \<Longrightarrow> update_one p f (pre @ x # post) = pre @ f x # post"
  by (induction pre) auto

lemma find_one_split:
  "p x \<Longrightarrow> \<forall>y\<in>set pre. \<not> p y \<Longrightarrow> find_one p (pre @ x # post) = Some x"
  by (induction pre) (auto simp: find_one_def)

lemma find_update_book:
  "(\<And>b. book_id (f b) = book_id b) \<Longrightarrow>
   find_one (by_id i) (update_one (by_id j) f bs) =
     (if i = j then map_option f (find_one (by_id i) bs) else find_one (by_id i) bs)"
  by (induction bs) (auto simp: find_one_def by_id_def)

lemma find_update_user:
  "(\<And>u. user_id (f u) = user_id u) \<Longrightarrow>
   find_one (by_user i) (update_one (by_user j) f us) =
     (if i = j then map_option f (find_one (by_user i) us) else find_one (by_user i) us)"
  by (induction us) (auto simp: find_one_def by_user_def)

lemma find_one_None_update:
  "find_one p xs = None \<Longrightarrow> update_one p f xs = xs"
  by (induction xs) (auto simp: find_one_def split: if_splits)

lemma book_id_writes [simp]:
  "book_id (push_note n b) = book_id b"
  "book_id (save_review r t b) = book_id b"
  "book_id (mark_finished t b) = book_id b"
  by (simp_all add: push_note_def save_review_def mark_finished_def)

lemma status_writes [simp]:
  "status (push_note n b) = status b"
  "status (save_review r t b) = status b"
  "status (mark_finished t b) = Finished"
  by (simp_all add: push_note_def save_review_def mark_finished_def)

lemmas handler_defs =
  start_command_def help_command_def new_book_command_def my_books_command_def
  current_book_command_def switch_book_command_def handle_callback_query_def
  handle_text_note_def handle_voice_note_def generate_review_command_def
  finish_book_command_def stats_command_def

lemma step_keeps_finished:
  assumes "find_one (by_id i) (books_collection d) = Some b" and "status b = Finished"
  shows "\<exists>b'. find_one (by_id i) (books_collection (fst (step d ev))) = Some b' \<and> status b' = Finished"
  using assms
  by (cases ev)
     (auto simp: handler_defs insert_book_def Let_def find_update_book find_one_append
           split: option.splits sum.splits list.splits prod.splits)

lemma run_keeps_finished:
  "find_one (by_id i) (books_collection d) = Some b \<Longrightarrow> status b = Finished \<Longrightarrow>
   \<exists>b'. find_one (by_id i) (books_collection (run d evs)) = Some b' \<and> status b' = Finished"
proof (induction evs arbitrary: d b)
  case Nil
  then show ?case by simp
next
  case (Cons ev evs)
  from step_keeps_finished [OF Cons.prems, of ev] obtain b1
    where "find_one (by_id i) (books_collection (fst (step d ev))) = Some b1" "status b1 = Finished"
    by blast
  from Cons.IH [OF this] show ?case by simp
qed

lemma find_one_sat: "find_one p xs = Some x \<Longrightarrow> p x"
  by (induction xs) (auto simp: find_one_def split: if_splits)

lemma get_current_book_SomeD:
  "get_current_book d uid = Some b \<Longrightarrow>
   \<exists>u. find_one (by_user uid) (users_collection d) = Some u \<and>
       current_book_id u = Some (book_id b) \<and>
       find_one (by_id (book_id b)) (books_collection d) = Some b"
proof -
  assume a: "get_current_book d uid = Some b"
  then obtain u bid where u: "find_one (by_user uid) (users_collection d) = Some u"
    and c: "current_book_id u = Some bid"
    and f: "find_one (by_id bid) (books_collection d) = Some b"
    by (auto simp: get_current_book_def split: option.splits)
  from find_one_sat [OF f] have "bid = book_id b" by (simp add: by_id_def)
  with u c f show ?thesis by blast
qed

lemma finish_no_current:
  "get_current_book d uid = None \<Longrightarrow> finish_book_command d uid now = (d, NoActiveBook)"
  by (simp add: finish_book_command_def)

lemma finish_current:
  assumes "get_current_book d uid = Some b"
  shows "\<exists>d'. finish_book_command d uid now = (d', MarkedFinished (title b) (length (book_notes b))) \<and>
           find_one (by_id (book_id b)) (books_collection d') =
             Some (b\<lparr>status := Finished, finished_at := Some now\<rparr>) \<and>
           map_option current_book_id (find_one (by_user uid) (users_collection d')) = Some None \<and>
           finish_book_command d' uid now' = (d', NoActiveBook)"
proof -
  from get_current_book_SomeD [OF assms] obtain u
    where u: "find_one (by_user uid) (users_collection d) = Some u"
      and b: "find_one (by_id (book_id b)) (books_collection d) = Some b"
    by blast
  let ?d' = "fst (finish_book_command d uid now)"
  have r: "finish_book_command d uid now = (?d', MarkedFinished (title b) (length (book_notes b)))"
    using assms by (simp add: finish_book_command_def)
  have bk: "find_one (by_id (book_id b)) (books_collection ?d') =
      Some (b\<lparr>status := Finished, finished_at := Some now\<rparr>)"
    using assms b by (simp add: finish_book_command_def find_update_book mark_finished_def)
  have us: "map_option current_book_id (find_one (by_user uid) (users_collection ?d')) = Some None"
    using assms u by (simp add: finish_book_command_def find_update_user)
  then have "get_current_book ?d' uid = None"
    by (auto simp: get_current_book_def split: option.splits)
  then have "finish_book_command ?d' uid now' = (?d', NoActiveBook)"
    by (rule finish_no_current)
  with r bk us show ?thesis by blast
qed

subsection \<open>Book ids\<close>

text \<open>
  The handlers find and update a book by its id. The store gives a new book an id that no
  stored book has, so in every store reached from the empty one the ids are distinct and
  each stored book is the one that its id finds. The statements below about the book found
  under an id are then statements about every stored book.
\<close>

lemma ball_update_one:
  "(\<And>b. P (f b) = P b) \<Longrightarrow> (\<forall>x\<in>set (update_one p f bs). P x) = (\<forall>x\<in>set bs. P x)"
  by (induction bs) auto

lemma step_ids_fresh: "ids_fresh d \<Longrightarrow> ids_fresh (fst (step d ev))"
proof (cases ev)
  case (NewBook uid args now)
  assume "ids_fresh d"
  then show ?thesis
    unfolding ids_fresh_def NewBook
    by (fastforce simp: new_book_command_def insert_book_def Let_def less_Suc_eq)
qed (simp_all add: ids_fresh_def handler_defs Let_def ball_update_one
       split: option.splits sum.splits list.splits prod.splits)

lemma run_ids_fresh: "ids_fresh d \<Longrightarrow> ids_fresh (run d evs)"
  by (induction evs arbitrary: d) (simp_all add: step_ids_fresh)

lemma ids_fresh_empty: "ids_fresh empty_db"
  by (simp add: ids_fresh_def empty_db_def)

lemma book_ids_update:
  "(\<And>b. book_id (f b) = book_id b) \<Longrightarrow> map book_id (update_one p f bs) = map book_id bs"
  by (induction bs) auto

lemma step_ids_distinct:
  assumes "ids_fresh d" and "distinct (map book_id (books_collection d))"
  shows "distinct (map book_id (books_collection (fst (step d ev))))"
proof (cases ev)
  case (NewBook uid args now)
  from assms(1) have "Oid 12 (next_oid d) \<notin> book_id ` set (books_collection d)"
    by (auto simp: ids_fresh_def)
  with assms(2) show ?thesis
    by (simp add: NewBook new_book_command_def insert_book_def Let_def)
qed (use assms(2) in \<open>simp_all add: handler_defs book_ids_update Let_def
       split: option.splits sum.splits list.splits\<close>)

lemma run_ids_distinct:
  "ids_fresh d \<Longrightarrow> distinct (map book_id (books_collection d)) \<Longrightarrow>
   distinct (map book_id (books_collection (run d evs)))"
  by (induction evs arbitrary: d) (simp_all add: step_ids_fresh step_ids_distinct)

lemma find_one_by_id:
  "distinct (map book_id bs) \<Longrightarrow> b \<in> set bs \<Longrightarrow> find_one (by_id (book_id b)) bs = Some b"
  by (induction bs) (auto simp: find_one_def by_id_def)

lemma short_id_finds_no_book:
  assumes "ids_fresh d" and "n \<noteq> 12"
  shows "find_one (by_id (Oid n v)) (books_collection d) = None"
  using assms by (auto simp: find_one_def find_None_iff ids_fresh_def by_id_def)

lemma reachable_book_found:
  assumes "b \<in> set (books_collection (run empty_db evs))"
  shows "find_one (by_id (book_id b)) (books_collection (run empty_db evs)) = Some b"
proof -
  have "distinct (map book_id (books_collection (run empty_db evs)))"
    by (rule run_ids_distinct) (simp_all add: ids_fresh_empty, simp add: empty_db_def)
  from find_one_by_id [OF this assms] show ?thesis .
qed

subsection \<open>C2: finishing the current book\<close>

text \<open>
  Claim C2. \<^verbatim>\<open>finish_book_command\<close> answers "no active book" and changes nothing when
  \<^verbatim>\<open>get_current_book\<close> finds no current book (no user document, no \<^verbatim>\<open>current_book_id\<close>,
  or an id that resolves to no book). Otherwise it sets the status of the current book to
  Finished and its \<^verbatim>\<open>finished_at\<close> to the clock reading, and clears the user's
  \<^verbatim>\<open>current_book_id\<close>, so that finishing again at once answers "no active book".
  Whatever events follow, a book that is Finished stays Finished.
\<close>

theorem finish_current_book:
  "(get_current_book d uid = None \<longrightarrow> finish_book_command d uid now = (d, NoActiveBook)) \<and>
   (\<forall>u. find_one (by_user uid) (users_collection d) = Some u \<and> current_book_id u = None \<longrightarrow>
        finish_book_command d uid now = (d, NoActiveBook)) \<and>
   (\<forall>b. get_current_book d uid = Some b \<longrightarrow>
        (\<exists>d'. finish_book_command d uid now =
                (d', MarkedFinished (title b) (length (book_notes b))) \<and>
              find_one (by_id (book_id b)) (books_collection d') =
                Some (b\<lparr>status := Finished, finished_at := Some now\<rparr>) \<and>
              map_option current_book_id (find_one (by_user uid) (users_collection d')) = Some None \<and>
              finish_book_command d' uid now' = (d', NoActiveBook))) \<and>
   (\<forall>i b. find_one (by_id i) (books_collection d) = Some b \<and> status b = Finished \<longrightarrow>
        (\<exists>b'. find_one (by_id i) (books_collection (run d evs)) = Some b' \<and> status b' = Finished))"
proof (intro conjI allI impI)
  show "finish_book_command d uid now = (d, NoActiveBook)" if "get_current_book d uid = None"
    using that by (rule finish_no_current)
next
  fix u
  assume "find_one (by_user uid) (users_collection d) = Some u \<and> current_book_id u = None"
  then have "get_current_book d uid = None" by (simp add: get_current_book_def)
  then show "finish_book_command d uid now = (d, NoActiveBook)" by (rule finish_no_current)
next
  fix b
  assume "get_current_book d uid = Some b"
  then show "\<exists>d'. finish_book_command d uid now =
                (d', MarkedFinished (title b) (length (book_notes b))) \<and>
              find_one (by_id (book_id b)) (books_collection d') =
                Some (b\<lparr>status := Finished, finished_at := Some now\<rparr>) \<and>
              map_option current_book_id (find_one (by_user uid) (users_collection d')) = Some None \<and>
              finish_book_command d' uid now' = (d', NoActiveBook)"
    by (rule finish_current)
next
  fix i b
  assume "find_one (by_id i) (books_collection d) = Some b \<and> status b = Finished"
  then show "\<exists>b'. find_one (by_id i) (books_collection (run d evs)) = Some b' \<and> status b' = Finished"
    using run_keeps_finished by blast
qed

theorem finish_current_book_witness:
  "get_current_book empty_db 1 = None \<and>
   finish_book_command empty_db 1 20 = (empty_db, NoActiveBook) \<and>
   find_one (by_user 1) (users_collection finished_db) = Some (ann\<lparr>current_book_id := None\<rparr>) \<and>
   finish_book_command finished_db 1 30 = (finished_db, NoActiveBook) \<and>
   get_current_book reading_db 1 = Some dune \<and>
   finish_book_command reading_db 1 20 = (finished_db, MarkedFinished ''Dune'' 0) \<and>
   find_one (by_id (Oid 12 0)) (books_collection finished_db) =
     Some (dune\<lparr>status := Finished, finished_at := Some 20\<rparr>) \<and>
   status (dune\<lparr>status := Finished, finished_at := Some 20\<rparr>) = Finished \<and>
   (\<exists>b'. find_one (by_id (Oid 12 0))
           (books_collection
              (run finished_db
                 [Callback 1 ''switch_000000000000000000000000'', TextNote 1 ''more'' 5 30,
                  Finish 1 40, NewBook 1 [''Emma''] 50])) = Some b' \<and>
         status b' = Finished)"
proof -
  have h1: "get_current_book empty_db 1 = None" by code_simp
  have h2: "find_one (by_user 1) (users_collection finished_db) = Some (ann\<lparr>current_book_id := None\<rparr>)"
    by code_simp
  have h2': "current_book_id (ann\<lparr>current_book_id := None\<rparr>) = None" by simp
  have h3: "get_current_book reading_db 1 = Some dune" by code_simp
  have h4: "find_one (by_id (Oid 12 0)) (books_collection finished_db) =
     Some (dune\<lparr>status := Finished, finished_at := Some 20\<rparr>)" by code_simp
  have h4': "status (dune\<lparr>status := Finished, finished_at := Some 20\<rparr>) = Finished" by simp
  have r: "finish_book_command reading_db 1 20 = (finished_db, MarkedFinished ''Dune'' 0)" by code_simp
  from finish_current_book [of empty_db 1 20 30 "[]"] h1
  have c1: "finish_book_command empty_db 1 20 = (empty_db, NoActiveBook)" by blast
  from finish_current_book [of finished_db 1 30 30
      "[Callback 1 ''switch_000000000000000000000000'', TextNote 1 ''more'' 5 30,
        Finish 1 40, NewBook 1 [''Emma''] 50]"] h2 h2' h4 h4'
  have c2: "finish_book_command finished_db 1 30 = (finished_db, NoActiveBook)"
    and c4: "\<exists>b'. find_one (by_id (Oid 12 0))
           (books_collection
              (run finished_db
                 [Callback 1 ''switch_000000000000000000000000'', TextNote 1 ''more'' 5 30,
                  Finish 1 40, NewBook 1 [''Emma''] 50])) = Some b' \<and>
         status b' = Finished" by blast+
  from h1 c1 h2 c2 h3 r h4 h4' c4 show ?thesis by blast
qed

lemma current_book_split:
  assumes "get_current_book d uid = Some b"
  shows "\<exists>pre post. books_collection d = pre @ b # post \<and> (\<forall>y\<in>set pre. book_id y \<noteq> book_id b)"
proof -
  from get_current_book_SomeD [OF assms]
  have "find_one (by_id (book_id b)) (books_collection d) = Some b" by blast
  from find_one_Some_split [OF this] show ?thesis by (auto simp: by_id_def)
qed

lemma text_note_no_current:
  "(snd (handle_text_note d uid txt mid now) = NoActiveBook) = (get_current_book d uid = None)"
  by (simp add: handle_text_note_def split: option.splits)

lemma voice_note_no_current:
  "(snd (handle_voice_note d uid tr mid dur now) = NoActiveBook) = (get_current_book d uid = None)"
  by (simp add: handle_voice_note_def split: option.splits)

subsection \<open>C10: what a saved note changes\<close>

text \<open>
  Claim C10. When the user has a current book, a text note (and a voice note whose
  transcription succeeded) is saved by one \<^verbatim>\<open>$push\<close> update of the store: the current book
  gets the new note at the end of its notes, and nothing else changes. The book keeps its
  id, owner, title, status, \<^verbatim>\<open>created_at\<close>, \<^verbatim>\<open>finished_at\<close>, \<^verbatim>\<open>ai_review\<close> and
  \<^verbatim>\<open>review_generated_at\<close>, every other book is as it was, and the users collection, with
  the user's \<^verbatim>\<open>current_book_id\<close>, is as it was.
\<close>

theorem append_note_frame:
  assumes "get_current_book d uid = Some b"
  shows "\<exists>pre post.
     books_collection d = pre @ b # post \<and>
     handle_text_note d uid txt mid now =
       (d\<lparr>books_collection :=
            pre @ b\<lparr>book_notes := book_notes b @
              [\<lparr>content = txt, note_type = Text, timestamp = now, message_id = mid,
                duration = None\<rparr>]\<rparr> # post\<rparr>,
        NoteSaved (title b)) \<and>
     handle_voice_note d uid (Some txt) mid dur now =
       (d\<lparr>books_collection :=
            pre @ b\<lparr>book_notes := book_notes b @
              [\<lparr>content = txt, note_type = Voice, timestamp = now, message_id = mid,
                duration = Some dur\<rparr>]\<rparr> # post\<rparr>,
        VoiceSaved (title b) txt)"
proof -
  from current_book_split [OF assms] obtain pre post
    where s: "books_collection d = pre @ b # post" and n: "\<forall>y\<in>set pre. book_id y \<noteq> book_id b"
    by blast
  have u: "update_one (by_id (book_id b)) f (books_collection d) = pre @ f b # post" for f
    using s n by (simp add: update_one_split by_id_def)
  have "handle_text_note d uid txt mid now =
       (d\<lparr>books_collection :=
            pre @ b\<lparr>book_notes := book_notes b @
              [\<lparr>content = txt, note_type = Text, timestamp = now, message_id = mid,
                duration = None\<rparr>]\<rparr> # post\<rparr>,
        NoteSaved (title b))"
    using assms by (simp add: handle_text_note_def u push_note_def)
  moreover have "handle_voice_note d uid (Some txt) mid dur now =
       (d\<lparr>books_collection :=
            pre @ b\<lparr>book_notes := book_notes b @
              [\<lparr>content = txt, note_type = Voice, timestamp = now, message_id = mid,
                duration = Some dur\<rparr>]\<rparr> # post\<rparr>,
        VoiceSaved (title b) txt)"
    using assms by (simp add: handle_voice_note_def u push_note_def)
  ultimately show ?thesis using s by blast
qed

theorem append_note_frame_witness:
  "get_current_book reading_db 1 = Some dune \<and>
   (\<exists>pre post.
     books_collection reading_db = pre @ dune # post \<and>
     handle_text_note reading_db 1 ''great opening'' 5 30 =
       (reading_db\<lparr>books_collection :=
            pre @ dune\<lparr>book_notes := book_notes dune @
              [\<lparr>content = ''great opening'', note_type = Text, timestamp = 30, message_id = 5,
                duration = None\<rparr>]\<rparr> # post\<rparr>,
        NoteSaved (title dune)) \<and>
     handle_voice_note reading_db 1 (Some ''great opening'') 5 7 30 =
       (reading_db\<lparr>books_collection :=
            pre @ dune\<lparr>book_notes := book_notes dune @
              [\<lparr>content = ''great opening'', note_type = Voice, timestamp = 30, message_id = 5,
                duration = Some 7\<rparr>]\<rparr> # post\<rparr>,
        VoiceSaved (title dune) ''great opening''))"
proof -
  have h: "get_current_book reading_db 1 = Some dune" by code_simp
  from append_note_frame [OF h, of "''great opening''" 5 30 7] h show ?thesis by blast
qed

subsection \<open>C3: notes and a finished current book\<close>

text \<open>
  The handlers do not look at the status of the current book. A user starts the books Emma
  and Dune, opens the switch menu while Dune is current, and finishes Dune. The Dune button
  of the menu, not pressed before, then makes the finished book current again, and a note
  sent after that is saved to it.
\<close>

theorem append_to_finished_counterexample:
  "snd (step (run empty_db [Start 1 (Some ''ann'') 1 1, NewBook 1 [''Emma''] 10, NewBook 1 [''Dune''] 11]) (SwitchBook 1)) =
     SwitchMenu
       [(''Dune (0 notes)'', ''switch_000000000000000000000001''),
        (''Emma (0 notes)'', ''switch_000000000000000000000000'')] \<and>
   get_current_book
     (run empty_db
        [Start 1 (Some ''ann'') 1 1, NewBook 1 [''Emma''] 10, NewBook 1 [''Dune''] 11,
         SwitchBook 1, Finish 1 20, Callback 1 ''switch_000000000000000000000001'']) 1 =
     Some \<lparr>book_id = Oid 12 1, owner_id = 1, title = ''Dune'', book_notes = [], status = Finished,
           created_at = 11, finished_at = Some 20, ai_review = None,
           review_generated_at = None\<rparr> \<and>
   handle_text_note
     (run empty_db
        [Start 1 (Some ''ann'') 1 1, NewBook 1 [''Emma''] 10, NewBook 1 [''Dune''] 11,
         SwitchBook 1, Finish 1 20, Callback 1 ''switch_000000000000000000000001'']) 1 ''more'' 5 30 =
     (\<lparr>books_collection =
         [\<lparr>book_id = Oid 12 0, owner_id = 1, title = ''Emma'', book_notes = [], status = Reading,
           created_at = 10, finished_at = None, ai_review = None,
           review_generated_at = None\<rparr>,
          \<lparr>book_id = Oid 12 1, owner_id = 1, title = ''Dune'',
           book_notes = [\<lparr>content = ''more'', note_type = Text, timestamp = 30,
                           message_id = 5, duration = None\<rparr>],
           status = Finished, created_at = 11, finished_at = Some 20, ai_review = None,
           review_generated_at = None\<rparr>],
       users_collection =
         [\<lparr>user_id = 1, username = ''ann'', last_active = 1, user_created_at = 1,
           current_book_id = Some (Oid 12 1)\<rparr>],
       next_oid = 2\<rparr>,
      NoteSaved ''Dune'') \<and>
   handle_voice_note
     (run empty_db
        [Start 1 (Some ''ann'') 1 1, NewBook 1 [''Emma''] 10, NewBook 1 [''Dune''] 11,
         SwitchBook 1, Finish 1 20, Callback 1 ''switch_000000000000000000000001'']) 1 (Some ''more'') 5 7 30 =
     (\<lparr>books_collection =
         [\<lparr>book_id = Oid 12 0, owner_id = 1, title = ''Emma'', book_notes = [], status = Reading,
           created_at = 10, finished_at = None, ai_review = None,
           review_generated_at = None\<rparr>,
          \<lparr>book_id = Oid 12 1, owner_id = 1, title = ''Dune'',
           book_notes = [\<lparr>content = ''more'', note_type = Voice, timestamp = 30,
                           message_id = 5, duration = Some 7\<rparr>],
           status = Finished, created_at = 11, finished_at = Some 20, ai_review = None,
           review_generated_at = None\<rparr>],
       users_collection =
         [\<lparr>user_id = 1, username = ''ann'', last_active = 1, user_created_at = 1,
           current_book_id = Some (Oid 12 1)\<rparr>],
       next_oid = 2\<rparr>,
      VoiceSaved ''Dune'' ''more'')"
  by code_simp

text \<open>
  Claim C3, amended. A note is refused with "no active book" exactly when
  \<^verbatim>\<open>get_current_book\<close> finds no current book. When it finds one, whatever its status,
  Finished included, the text note (or the transcribed voice note) is appended to that
  book and answered as saved.
\<close>

theorem append_note_any_status:
  "((snd (handle_text_note d uid txt mid now) = NoActiveBook) = (get_current_book d uid = None)) \<and>
   ((snd (handle_voice_note d uid tr mid dur now) = NoActiveBook) = (get_current_book d uid = None)) \<and>
   (\<forall>b. get_current_book d uid = Some b \<longrightarrow>
      snd (handle_text_note d uid txt mid now) = NoteSaved (title b) \<and>
      find_one (by_id (book_id b)) (books_collection (fst (handle_text_note d uid txt mid now))) =
        Some (b\<lparr>book_notes := book_notes b @
                [\<lparr>content = txt, note_type = Text, timestamp = now, message_id = mid,
                  duration = None\<rparr>]\<rparr>) \<and>
      snd (handle_voice_note d uid (Some txt) mid dur now) = VoiceSaved (title b) txt \<and>
      find_one (by_id (book_id b))
          (books_collection (fst (handle_voice_note d uid (Some txt) mid dur now))) =
        Some (b\<lparr>book_notes := book_notes b @
                [\<lparr>content = txt, note_type = Voice, timestamp = now, message_id = mid,
                  duration = Some dur\<rparr>]\<rparr>))"
proof (intro conjI allI impI)
  fix b
  assume a: "get_current_book d uid = Some b"
  from get_current_book_SomeD [OF a]
  have f: "find_one (by_id (book_id b)) (books_collection d) = Some b" by blast
  show "snd (handle_text_note d uid txt mid now) = NoteSaved (title b)"
    using a by (simp add: handle_text_note_def)
  show "find_one (by_id (book_id b)) (books_collection (fst (handle_text_note d uid txt mid now))) =
        Some (b\<lparr>book_notes := book_notes b @
                [\<lparr>content = txt, note_type = Text, timestamp = now, message_id = mid,
                  duration = None\<rparr>]\<rparr>)"
    using a f by (simp add: handle_text_note_def find_update_book push_note_def)
  show "snd (handle_voice_note d uid (Some txt) mid dur now) = VoiceSaved (title b) txt"
    using a by (simp add: handle_voice_note_def)
  show "find_one (by_id (book_id b))
          (books_collection (fst (handle_voice_note d uid (Some txt) mid dur now))) =
        Some (b\<lparr>book_notes := book_notes b @
                [\<lparr>content = txt, note_type = Voice, timestamp = now, message_id = mid,
                  duration = Some dur\<rparr>]\<rparr>)"
    using a f by (simp add: handle_voice_note_def find_update_book push_note_def)
qed (rule text_note_no_current voice_note_no_current)+

theorem append_note_any_status_witness:
  "get_current_book stale_db 1 = Some (dune\<lparr>status := Finished, finished_at := Some 20\<rparr>) \<and>
   snd (handle_text_note stale_db 1 ''more'' 5 30) = NoteSaved ''Dune'' \<and>
   find_one (by_id (Oid 12 0)) (books_collection (fst (handle_text_note stale_db 1 ''more'' 5 30))) =
     Some (dune\<lparr>status := Finished, finished_at := Some 20,
                book_notes := [\<lparr>content = ''more'', note_type = Text, timestamp = 30,
                                 message_id = 5, duration = None\<rparr>]\<rparr>) \<and>
   snd (handle_voice_note stale_db 1 (Some ''more'') 5 7 30) = VoiceSaved ''Dune'' ''more'' \<and>
   find_one (by_id (Oid 12 0))
       (books_collection (fst (handle_voice_note stale_db 1 (Some ''more'') 5 7 30))) =
     Some (dune\<lparr>status := Finished, finished_at := Some 20,
                book_notes := [\<lparr>content = ''more'', note_type = Voice, timestamp = 30,
                                 message_id = 5, duration = Some 7\<rparr>]\<rparr>)"
proof -
  have h: "get_current_book stale_db 1 = Some (dune\<lparr>status := Finished, finished_at := Some 20\<rparr>)"
    by code_simp
  from append_note_any_status [of stale_db 1 "''more''" 5 30 "Some ''more''" 7] h
  show ?thesis by (simp add: dune_def)
qed

subsection \<open>C4: switching the current book\<close>

lemma py_split_not_Nil: "py_split sep s \<noteq> []"
  by (induction s) (auto split: list.splits)

lemma py_split_switch:
  assumes "startswith data ''switch_''"
  shows "\<exists>part rest. py_split (CHR ''_'') data = ''switch'' # part # rest"
proof -
  define r where "r = drop (length ''switch_'') data"
  have "take (length ''switch_'') data @ r = data"
    unfolding r_def by (rule append_take_drop_id)
  with assms have "data = ''switch_'' @ r"
    unfolding startswith_def by metis
  then have "py_split (CHR ''_'') data = ''switch'' # py_split (CHR ''_'') r"
    by simp
  moreover obtain part rest where "py_split (CHR ''_'') r = part # rest"
    using py_split_not_Nil [of "CHR ''_''" r] by (cases "py_split (CHR ''_'') r") auto
  ultimately show ?thesis by simp
qed

lemma callback_switch:
  assumes "startswith data ''switch_''"
    and "ObjectId (py_split (CHR ''_'') data ! 1) = Inr bid"
  shows "handle_callback_query d uid data =
     (let d1 = d\<lparr>users_collection :=
                  update_one (by_user uid) (\<lambda>u. u\<lparr>current_book_id := Some bid\<rparr>)
                    (users_collection d)\<rparr>
      in case find_one (by_id bid) (books_collection d) of
           None \<Rightarrow> (d1, Raised TypeError)
         | Some b \<Rightarrow> (d1, Switched (title b)))"
proof -
  from py_split_switch [OF assms(1)] obtain part rest
    where s: "py_split (CHR ''_'') data = ''switch'' # part # rest" by blast
  with assms(2) have "ObjectId part = Inr bid" by simp
  with s assms(1) show ?thesis
    by (simp add: handle_callback_query_def Let_def)
qed

text \<open>The handler reads the data of a menu button back as the id of the button's book.\<close>

lemma hex_chars:
  "\<forall>d\<in>set [0..<16]. hex_value (hex_char d) = Some d \<and> hex_char d \<noteq> CHR ''_'' \<and>
     \<not> is_ascii_space (hex_char d)"
  by code_simp

lemma hex_value_hex_char: "d < 16 \<Longrightarrow> hex_value (hex_char d) = Some d"
  using hex_chars by simp

lemma hex_char_not_sep: "d < 16 \<Longrightarrow> CHR ''_'' \<noteq> hex_char d"
  using hex_chars by force

lemma hex_char_not_space: "d < 16 \<Longrightarrow> \<not> is_ascii_space (hex_char d)"
  using hex_chars by simp

lemma fromhex_byte:
  assumes "a < 16" and "b < 16"
  shows "fromhex n v (hex_char a # hex_char b # rest) = fromhex (Suc n) (256 * v + 16 * a + b) rest"
  using assms by (simp add: hex_char_not_space hex_value_hex_char)

lemma byte_split: "16 * (w div 16 mod 16) + w mod 16 = (w :: nat) mod 256"
proof -
  have "w mod (16 * 16) = 16 * (w div 16 mod 16) + w mod 16" by (rule mod_mult2_eq)
  then show ?thesis by simp
qed

lemma hex_digits_two:
  "hex_digits (2 * Suc k) w =
     hex_digits (2 * k) (w div 256) @ [hex_char (w div 16 mod 16), hex_char (w mod 16)]"
proof -
  have "w div 16 div 16 = w div 256" by (simp add: div_mult2_eq)
  then show ?thesis by simp
qed

lemma fromhex_hex_digits:
  "fromhex n v (hex_digits (2 * k) w @ rest) =
     fromhex (n + k) (v * 256 ^ k + w mod 256 ^ k) rest"
proof (induction k arbitrary: w rest)
  case 0
  then show ?case by simp
next
  case (Suc k)
  have m: "w mod (256 * 256 ^ k) = 256 * (w div 256 mod 256 ^ k) + w mod 256"
    by (rule mod_mult2_eq)
  have "fromhex n v (hex_digits (2 * Suc k) w @ rest) =
      fromhex n v (hex_digits (2 * k) (w div 256) @
        (hex_char (w div 16 mod 16) # hex_char (w mod 16) # rest))"
    unfolding hex_digits_two by simp
  also have "\<dots> = fromhex (n + k) (v * 256 ^ k + w div 256 mod 256 ^ k)
      (hex_char (w div 16 mod 16) # hex_char (w mod 16) # rest)"
    by (rule Suc.IH)
  also have "\<dots> = fromhex (Suc (n + k))
      (256 * (v * 256 ^ k + w div 256 mod 256 ^ k) + 16 * (w div 16 mod 16) + w mod 16) rest"
    by (rule fromhex_byte) simp_all
  also have "256 * (v * 256 ^ k + w div 256 mod 256 ^ k) + 16 * (w div 16 mod 16) + w mod 16 =
      v * 256 ^ Suc k + w mod 256 ^ Suc k"
    using byte_split [of w] m by (simp add: algebra_simps)
  finally show ?case by simp
qed

lemma length_hex_digits: "length (hex_digits k n) = k"
  by (induction k arbitrary: n) simp_all

lemma hex_digits_no_sep: "CHR ''_'' \<notin> set (hex_digits k n)"
  by (induction k arbitrary: n) (simp_all add: hex_char_not_sep)

lemma ObjectId_str_oid: "v < 256 ^ 12 \<Longrightarrow> ObjectId (str_oid (Oid 12 v)) = Inr (Oid 12 v)"
  using fromhex_hex_digits [of 0 0 12 v "[]"]
  by (simp add: ObjectId_def length_hex_digits)

lemma py_split_no_sep: "sep \<notin> set s \<Longrightarrow> py_split sep s = [s]"
  by (induction s) auto

lemma switch_callback_data_parses:
  assumes "book_id b = Oid 12 v" and "v < 256 ^ 12"
  shows "startswith (switch_callback_data b) ''switch_'' \<and>
         ObjectId (py_split (CHR ''_'') (switch_callback_data b) ! 1) = Inr (book_id b)"
proof -
  have "py_split (CHR ''_'') (switch_callback_data b) = [''switch'', str_oid (book_id b)]"
    by (simp add: switch_callback_data_def assms(1) py_split_no_sep hex_digits_no_sep)
  then have "py_split (CHR ''_'') (switch_callback_data b) ! 1 = str_oid (Oid 12 v)"
    by (simp add: assms(1))
  then have "ObjectId (py_split (CHR ''_'') (switch_callback_data b) ! 1) = Inr (book_id b)"
    unfolding assms(1) using ObjectId_str_oid [OF assms(2)] by (simp only:)
  moreover have "startswith (switch_callback_data b) ''switch_''"
    by (simp add: startswith_def switch_callback_data_def)
  ultimately show ?thesis by blast
qed

text \<open>
  Data with whitespace between the digits is read as an id of fewer bytes. No book of the
  store has such an id: the handler has overwritten \<^verbatim>\<open>current_book_id\<close> when it raises.
\<close>

lemma short_id_example:
  "ObjectId ''00000000000000000000 0a '' = Inr (Oid 11 10) \<and>
   handle_callback_query reading_db 1 ''switch_00000000000000000000 0a '' =
     (reading_db\<lparr>users_collection := [ann\<lparr>current_book_id := Some (Oid 11 10)\<rparr>]\<rparr>,
      Raised TypeError)"
  by code_simp

lemma dune_button: "switch_callback_data dune = ''switch_000000000000000000000000''"
  by code_simp

text \<open>
  The callback handler writes the id of the pressed button into the user's
  \<^verbatim>\<open>current_book_id\<close> before it looks the book up, and looks it up by \<^verbatim>\<open>_id\<close> alone.
  When user 1 presses the Dune button of the menu that user 2 opened (in a chat that both
  see), user 1 is switched to the book of user 2. Callback data that names no book has
  changed \<^verbatim>\<open>current_book_id\<close> by the time the handler raises.
\<close>

theorem switch_unchecked_counterexample:
  "snd (step (run empty_db
        [Start 1 (Some ''ann'') 1 1, Start 2 (Some ''bob'') 2 2, NewBook 2 [''Dune''] 10,
         NewBook 2 [''Emma''] 11]) (SwitchBook 2)) =
     SwitchMenu
       [(''Emma (0 notes)'', ''switch_000000000000000000000001''),
        (''Dune (0 notes)'', ''switch_000000000000000000000000'')] \<and>
   handle_callback_query
     (run empty_db
        [Start 1 (Some ''ann'') 1 1, Start 2 (Some ''bob'') 2 2, NewBook 2 [''Dune''] 10,
         NewBook 2 [''Emma''] 11])
     1 ''switch_000000000000000000000000'' =
     (\<lparr>books_collection =
         [\<lparr>book_id = Oid 12 0, owner_id = 2, title = ''Dune'', book_notes = [], status = Reading,
           created_at = 10, finished_at = None, ai_review = None,
           review_generated_at = None\<rparr>,
          \<lparr>book_id = Oid 12 1, owner_id = 2, title = ''Emma'', book_notes = [], status = Reading,
           created_at = 11, finished_at = None, ai_review = None,
           review_generated_at = None\<rparr>],
       users_collection =
         [\<lparr>user_id = 1, username = ''ann'', last_active = 1, user_created_at = 1,
           current_book_id = Some (Oid 12 0)\<rparr>,
          \<lparr>user_id = 2, username = ''bob'', last_active = 2, user_created_at = 2,
           current_book_id = Some (Oid 12 1)\<rparr>],
       next_oid = 2\<rparr>,
      Switched ''Dune'') \<and>
   handle_callback_query
     (run empty_db [Start 1 (Some ''ann'') 1 1, NewBook 1 [''Dune''] 10])
     1 ''switch_000000000000000000000005'' =
     (\<lparr>books_collection =
         [\<lparr>book_id = Oid 12 0, owner_id = 1, title = ''Dune'', book_notes = [], status = Reading,
           created_at = 10, finished_at = None, ai_review = None,
           review_generated_at = None\<rparr>],
       users_collection =
         [\<lparr>user_id = 1, username = ''ann'', last_active = 1, user_created_at = 1,
           current_book_id = Some (Oid 12 5)\<rparr>],
       next_oid = 1\<rparr>,
      Raised TypeError)"
  by code_simp

text \<open>
  Claim C4, amended. On callback data \<^verbatim>\<open>switch_<id>\<close> whose id names a stored book,
  whoever owns it, the handler sets the \<^verbatim>\<open>current_book_id\<close> of the user's document (when
  there is one) to that id and answers with the book's title; the book is then the
  user's current book. The handler makes no ownership check.
\<close>

theorem switch_current_book:
  assumes "startswith data ''switch_''"
    and "ObjectId (py_split (CHR ''_'') data ! 1) = Inr bid"
    and "find_one (by_id bid) (books_collection d) = Some b"
  shows "handle_callback_query d uid data =
           (d\<lparr>users_collection :=
                update_one (by_user uid) (\<lambda>u. u\<lparr>current_book_id := Some bid\<rparr>)
                  (users_collection d)\<rparr>,
            Switched (title b)) \<and>
         (\<forall>u. find_one (by_user uid) (users_collection d) = Some u \<longrightarrow>
            find_one (by_user uid) (users_collection (fst (handle_callback_query d uid data))) =
              Some (u\<lparr>current_book_id := Some bid\<rparr>) \<and>
            get_current_book (fst (handle_callback_query d uid data)) uid = Some b)"
proof -
  have r: "handle_callback_query d uid data =
           (d\<lparr>users_collection :=
                update_one (by_user uid) (\<lambda>u. u\<lparr>current_book_id := Some bid\<rparr>)
                  (users_collection d)\<rparr>,
            Switched (title b))"
    using callback_switch [OF assms(1,2), of d uid] assms(3) by (simp add: Let_def)
  have "find_one (by_user uid) (users_collection (fst (handle_callback_query d uid data))) =
              Some (u\<lparr>current_book_id := Some bid\<rparr>) \<and>
        get_current_book (fst (handle_callback_query d uid data)) uid = Some b"
    if "find_one (by_user uid) (users_collection d) = Some u" for u
    using that assms(3) by (simp add: r find_update_user get_current_book_def)
  with r show ?thesis by blast
qed

theorem switch_current_book_witness:
  "startswith ''switch_000000000000000000000000'' ''switch_'' \<and>
   ObjectId (py_split (CHR ''_'') ''switch_000000000000000000000000'' ! 1) = Inr (Oid 12 0) \<and>
   find_one (by_id (Oid 12 0)) (books_collection finished_db) =
     Some (dune\<lparr>status := Finished, finished_at := Some 20\<rparr>) \<and>
   find_one (by_user 1) (users_collection finished_db) = Some (ann\<lparr>current_book_id := None\<rparr>) \<and>
   handle_callback_query finished_db 1 ''switch_000000000000000000000000'' =
     (stale_db, Switched ''Dune'') \<and>
   get_current_book stale_db 1 = Some (dune\<lparr>status := Finished, finished_at := Some 20\<rparr>)"
proof -
  have h1: "startswith ''switch_000000000000000000000000'' ''switch_''" by code_simp
  have h2: "ObjectId (py_split (CHR ''_'') ''switch_000000000000000000000000'' ! 1) = Inr (Oid 12 0)"
    by code_simp
  have h3: "find_one (by_id (Oid 12 0)) (books_collection finished_db) =
     Some (dune\<lparr>status := Finished, finished_at := Some 20\<rparr>)" by code_simp
  have h4: "find_one (by_user 1) (users_collection finished_db) = Some (ann\<lparr>current_book_id := None\<rparr>)"
    by code_simp
  have e: "finished_db\<lparr>users_collection :=
                update_one (by_user 1) (\<lambda>u. u\<lparr>current_book_id := Some (Oid 12 0)\<rparr>)
                  (users_collection finished_db)\<rparr> = stale_db"
    by (simp add: finished_db_def stale_db_def by_user_def ann_def)
  note c = switch_current_book [OF h1 h2 h3, of 1]
  from c e have c1: "handle_callback_query finished_db 1 ''switch_000000000000000000000000'' =
     (stale_db, Switched ''Dune'')" by (simp add: dune_def)
  from c h4 have "get_current_book
      (fst (handle_callback_query finished_db 1 ''switch_000000000000000000000000'')) 1 =
      Some (dune\<lparr>status := Finished, finished_at := Some 20\<rparr>)" by blast
  then have c2: "get_current_book stale_db 1 =
      Some (dune\<lparr>status := Finished, finished_at := Some 20\<rparr>)" by (simp add: c1)
  from h1 h2 h3 h4 c1 c2 show ?thesis by blast
qed

subsection \<open>C9: when \<^verbatim>\<open>finished_at\<close> is written\<close>

lemma finished_at_writes [simp]:
  "finished_at (push_note n b) = finished_at b"
  "finished_at (save_review r t b) = finished_at b"
  "finished_at (mark_finished t b) = Some t"
  by (simp_all add: push_note_def save_review_def mark_finished_def)

lemma step_keeps_finished_at:
  assumes "\<not> is_finish ev" and "find_one (by_id i) (books_collection d) = Some b"
  shows "\<exists>b'. find_one (by_id i) (books_collection (fst (step d ev))) = Some b' \<and>
              finished_at b' = finished_at b \<and> status b' = status b"
  using assms
  by (cases ev)
     (auto simp: handler_defs insert_book_def Let_def find_update_book find_one_append
           split: option.splits sum.splits list.splits prod.splits)

lemma step_finished_at_set:
  assumes "find_one (by_id i) (books_collection d) = Some b" and "finished_at b \<noteq> None"
  shows "\<exists>b'. find_one (by_id i) (books_collection (fst (step d ev))) = Some b' \<and>
              finished_at b' \<noteq> None"
  using assms
  by (cases ev)
     (auto simp: handler_defs insert_book_def Let_def find_update_book find_one_append
           split: option.splits sum.splits list.splits prod.splits)

lemma run_finished_at_set:
  "find_one (by_id i) (books_collection d) = Some b \<Longrightarrow> finished_at b \<noteq> None \<Longrightarrow>
   \<exists>b'. find_one (by_id i) (books_collection (run d evs)) = Some b' \<and> finished_at b' \<noteq> None"
proof (induction evs arbitrary: d b)
  case Nil
  then show ?case by simp
next
  case (Cons ev evs)
  from step_finished_at_set [OF Cons.prems, of ev] obtain b1
    where "find_one (by_id i) (books_collection (fst (step d ev))) = Some b1"
      "finished_at b1 \<noteq> None"
    by blast
  from Cons.IH [OF this] show ?case by simp
qed

lemma finish_writes_finished_at:
  assumes "get_current_book d uid = Some c" and "find_one (by_id i) (books_collection d) = Some b"
  shows "find_one (by_id i) (books_collection (fst (finish_book_command d uid now))) =
           Some (if i = book_id c then b\<lparr>status := Finished, finished_at := Some now\<rparr> else b)"
  using assms by (auto simp: finish_book_command_def find_update_book mark_finished_def)

text \<open>
  \<^verbatim>\<open>finish_book_command\<close> writes \<^verbatim>\<open>finished_at\<close> without reading the status of the
  current book. A user starts the books Emma and Dune, opens the switch menu while Dune is
  current, and finishes Dune at 20. The Dune button of the menu, not pressed before, makes
  the finished book current again, and finishing it once more at 30 overwrites its
  \<^verbatim>\<open>finished_at\<close>.
\<close>

theorem finished_at_overwritten_counterexample:
  "snd (step (run empty_db [Start 1 (Some ''ann'') 1 1, NewBook 1 [''Emma''] 10, NewBook 1 [''Dune''] 11]) (SwitchBook 1)) =
     SwitchMenu
       [(''Dune (0 notes)'', ''switch_000000000000000000000001''),
        (''Emma (0 notes)'', ''switch_000000000000000000000000'')] \<and>
   map finished_at
     (books_collection
        (run empty_db
           [Start 1 (Some ''ann'') 1 1, NewBook 1 [''Emma''] 10, NewBook 1 [''Dune''] 11,
            SwitchBook 1, Finish 1 20])) =
     [None, Some 20] \<and>
   map finished_at
     (books_collection
        (run empty_db
           [Start 1 (Some ''ann'') 1 1, NewBook 1 [''Emma''] 10, NewBook 1 [''Dune''] 11,
            SwitchBook 1, Finish 1 20, Callback 1 ''switch_000000000000000000000001'', Finish 1 30])) =
     [None, Some 30]"
  by code_simp

text \<open>
  Claim C9, amended. Only the finish command writes \<^verbatim>\<open>finished_at\<close>: every other event
  leaves the \<^verbatim>\<open>finished_at\<close> and the status of every book as they were. A finish command
  with a current book sets the \<^verbatim>\<open>finished_at\<close> of that book to the clock reading,
  whether the book was Reading or already Finished, and leaves every other book alone; with
  no current book it changes nothing. Once set, \<^verbatim>\<open>finished_at\<close> is never cleared.
\<close>

theorem finished_at_written_by_finish_only:
  "(\<not> is_finish ev \<and> find_one (by_id i) (books_collection d) = Some b \<longrightarrow>
      (\<exists>b'. find_one (by_id i) (books_collection (fst (step d ev))) = Some b' \<and>
            finished_at b' = finished_at b \<and> status b' = status b)) \<and>
   (get_current_book d uid = Some c \<and> find_one (by_id i) (books_collection d) = Some b \<longrightarrow>
      find_one (by_id i) (books_collection (fst (finish_book_command d uid now))) =
        Some (if i = book_id c then b\<lparr>status := Finished, finished_at := Some now\<rparr> else b)) \<and>
   (get_current_book d uid = None \<longrightarrow> fst (finish_book_command d uid now) = d) \<and>
   (find_one (by_id i) (books_collection d) = Some b \<and> finished_at b \<noteq> None \<longrightarrow>
      (\<exists>b'. find_one (by_id i) (books_collection (run d evs)) = Some b' \<and>
            finished_at b' \<noteq> None))"
  using step_keeps_finished_at [of ev i d b] finish_writes_finished_at [of d uid c i b now]
    run_finished_at_set [of i d b evs] finish_no_current [of d uid now]
  by simp

theorem finished_at_written_by_finish_only_witness:
  "\<not> is_finish (Callback 1 ''switch_000000000000000000000000'') \<and>
   find_one (by_id (Oid 12 0)) (books_collection finished_db) =
     Some (dune\<lparr>status := Finished, finished_at := Some 20\<rparr>) \<and>
   (\<exists>b'. find_one (by_id (Oid 12 0))
            (books_collection
               (fst (step finished_db (Callback 1 ''switch_000000000000000000000000'')))) = Some b' \<and>
         finished_at b' = Some 20 \<and> status b' = Finished) \<and>
   get_current_book stale_db 1 = Some (dune\<lparr>status := Finished, finished_at := Some 20\<rparr>) \<and>
   find_one (by_id (Oid 12 0)) (books_collection stale_db) =
     Some (dune\<lparr>status := Finished, finished_at := Some 20\<rparr>) \<and>
   find_one (by_id (Oid 12 0)) (books_collection (fst (finish_book_command stale_db 1 30))) =
     Some (dune\<lparr>status := Finished, finished_at := Some 30\<rparr>) \<and>
   get_current_book finished_db 1 = None \<and>
   fst (finish_book_command finished_db 1 30) = finished_db \<and>
   (\<exists>b'. find_one (by_id (Oid 12 0))
            (books_collection
               (run finished_db
                  [Callback 1 ''switch_000000000000000000000000'', Finish 1 30])) = Some b' \<and>
         finished_at b' \<noteq> None)"
proof -
  have n: "\<not> is_finish (Callback 1 ''switch_000000000000000000000000'')" by simp
  have f: "find_one (by_id (Oid 12 0)) (books_collection finished_db) =
     Some (dune\<lparr>status := Finished, finished_at := Some 20\<rparr>)" by code_simp
  have g: "get_current_book stale_db 1 = Some (dune\<lparr>status := Finished, finished_at := Some 20\<rparr>)"
    by code_simp
  have f': "find_one (by_id (Oid 12 0)) (books_collection stale_db) =
     Some (dune\<lparr>status := Finished, finished_at := Some 20\<rparr>)" by code_simp
  have k: "get_current_book finished_db 1 = None" by code_simp
  have s: "finished_at (dune\<lparr>status := Finished, finished_at := Some 20\<rparr>) \<noteq> None" by simp
  note t1 = finished_at_written_by_finish_only
    [of "Callback 1 ''switch_000000000000000000000000''" "Oid 12 0" finished_db
        "dune\<lparr>status := Finished, finished_at := Some 20\<rparr>" 1 dune 30
        "[Callback 1 ''switch_000000000000000000000000'', Finish 1 30]"]
  note t2 = finished_at_written_by_finish_only
    [of Help "Oid 12 0" stale_db "dune\<lparr>status := Finished, finished_at := Some 20\<rparr>" 1
        "dune\<lparr>status := Finished, finished_at := Some 20\<rparr>" 30 "[]"]
  from t1 n f have c1: "\<exists>b'. find_one (by_id (Oid 12 0))
            (books_collection
               (fst (step finished_db (Callback 1 ''switch_000000000000000000000000'')))) = Some b' \<and>
         finished_at b' = Some 20 \<and> status b' = Finished" by simp
  from t2 g f' have c2: "find_one (by_id (Oid 12 0)) (books_collection (fst (finish_book_command stale_db 1 30))) =
     Some (dune\<lparr>status := Finished, finished_at := Some 30\<rparr>)" by (simp add: dune_def)
  from t1 k have c3: "fst (finish_book_command finished_db 1 30) = finished_db" by blast
  from t1 f s have c4: "\<exists>b'. find_one (by_id (Oid 12 0))
            (books_collection
               (run finished_db
                  [Callback 1 ''switch_000000000000000000000000'', Finish 1 30])) = Some b' \<and>
         finished_at b' \<noteq> None" by blast
  from n f c1 g f' c2 k c3 c4 show ?thesis by blast
qed

subsection \<open>C5: the review prompt\<close>

lemma py_join_Cons:
  "py_join sep (x # ys) = (if ys = [] then x else x @ sep @ py_join sep ys)"
  by (cases ys) simp_all

lemma py_join_append:
  "py_join sep (xs @ ys) =
     (if xs = [] then py_join sep ys
      else if ys = [] then py_join sep xs
      else py_join sep xs @ sep @ py_join sep ys)"
  by (induction xs) (auto simp: py_join_Cons)

lemma py_join_nth:
  assumes "i < length xs"
  shows "\<exists>p r. py_join sep xs = p @ xs ! i @ r"
proof -
  from assms have "xs = take i xs @ (xs ! i # drop (Suc i) xs)"
    by (simp add: id_take_nth_drop)
  then have "py_join sep xs = py_join sep (take i xs @ (xs ! i # drop (Suc i) xs))"
    by simp
  also have "\<dots> = (if take i xs = [] then [] else py_join sep (take i xs) @ sep) @ xs ! i @
      (if drop (Suc i) xs = [] then [] else sep @ py_join sep (drop (Suc i) xs))"
    unfolding py_join_append py_join_Cons by simp
  finally show ?thesis by blast
qed

lemma py_join_nth_two:
  assumes "i < j" and "j < length xs"
  shows "\<exists>p q r. py_join sep xs = p @ xs ! i @ q @ xs ! j @ r"
proof -
  let ?ys = "drop (Suc i) xs"
  from assms have i: "i < length xs" by simp
  from assms have j: "j - Suc i < length ?ys" by simp
  from assms have ne: "?ys \<noteq> []" by simp
  from assms have nth: "?ys ! (j - Suc i) = xs ! j" by simp
  from i have "xs = take i xs @ (xs ! i # ?ys)"
    by (simp add: id_take_nth_drop)
  then have "py_join sep xs = py_join sep (take i xs @ (xs ! i # ?ys))"
    by simp
  also have "\<dots> = (if take i xs = [] then [] else py_join sep (take i xs) @ sep) @ xs ! i @
      sep @ py_join sep ?ys"
    unfolding py_join_append py_join_Cons using ne by simp
  finally have a: "py_join sep xs =
      (if take i xs = [] then [] else py_join sep (take i xs) @ sep) @ xs ! i @
      sep @ py_join sep ?ys" .
  from py_join_nth [OF j, of sep] nth obtain p r where "py_join sep ?ys = p @ xs ! j @ r"
    by auto
  with a have "py_join sep xs =
      (if take i xs = [] then [] else py_join sep (take i xs) @ sep) @ xs ! i @
      (sep @ p) @ xs ! j @ r" by simp
  then show ?thesis by blast
qed

lemma enumerate_Nil_iff: "(enumerate k ns = []) = (ns = [])"
  by (cases ns) simp_all

lemma notes_text_snoc:
  "notes_text (ns @ [n]) =
     (if ns = [] then note_block 0 n else notes_text ns @ nl @ nl @ note_block (length ns) n)"
  by (simp add: notes_text_def enumerate_append_eq py_join_append enumerate_Nil_iff)

lemma notes_text_blocks:
  assumes "i < j" and "j < length ns"
  shows "\<exists>p q r. notes_text ns = p @ note_block i (ns ! i) @ q @ note_block j (ns ! j) @ r"
proof -
  let ?xs = "map (\<lambda>(i, n). note_block i n) (enumerate 0 ns)"
  from assms have l: "j < length ?xs" by simp
  from assms have ni: "?xs ! i = note_block i (ns ! i)" by (simp add: nth_enumerate_eq)
  from assms have nj: "?xs ! j = note_block j (ns ! j)" by (simp add: nth_enumerate_eq)
  from py_join_nth_two [OF assms(1) l, of "nl @ nl"] obtain p q r
    where "py_join (nl @ nl) ?xs = p @ ?xs ! i @ q @ ?xs ! j @ r" by blast
  then have "notes_text ns = p @ note_block i (ns ! i) @ q @ note_block j (ns ! j) @ r"
    unfolding notes_text_def ni nj .
  then show ?thesis by blast
qed

lemma blocks_contents:
  "map content ns = map content ns' \<Longrightarrow>
   map (\<lambda>(i, n). note_block i n) (enumerate k ns) =
   map (\<lambda>(i, n). note_block i n) (enumerate k ns')"
proof (induction ns arbitrary: ns' k)
  case Nil
  then show ?case by simp
next
  case (Cons n ns)
  then obtain n' ms where "ns' = n' # ms" "content n = content n'" "map content ns = map content ms"
    by (cases ns') auto
  with Cons.IH [of ms "Suc k"] show ?case by (simp add: note_block_def)
qed

lemma notes_text_contents:
  "map content ns = map content ns' \<Longrightarrow> notes_text ns = notes_text ns'"
  using blocks_contents [of ns ns' 0] by (simp add: notes_text_def)

lemma review_command_prompt:
  assumes "get_current_book d uid = Some b"
  shows "generate_review_command d uid llm now =
     (if book_notes b = [] then (d, NoNotesFound (title b))
      else case llm (review_prompt (title b) (notes_text (book_notes b))) of
             None \<Rightarrow> (d, ReviewFailed)
           | Some r \<Rightarrow>
               (d\<lparr>books_collection :=
                    update_one (by_id (book_id b)) (save_review (strip r) now) (books_collection d)\<rparr>,
                ReviewSent (title b) (length (book_notes b)) (strip r)))"
  using assms
  by (simp add: generate_review_command_def generate_ai_review_def split: option.splits)

lemma notes_text_AB:
  assumes "content a = ''A''" and "content b = ''B''"
  shows "notes_text [a, b] = ''Note 1: A'' @ nl @ nl @ ''Note 2: B''"
proof -
  have "str_nat 1 = ''1''" by code_simp
  then have s1: "str_nat (Suc 0) = ''1''" by simp
  have "str_nat 2 = ''2''" by code_simp
  then have s2: "str_nat (Suc (Suc 0)) = ''2''" by (simp add: numeral_2_eq_2)
  from assms s1 s2 show ?thesis
    by (simp add: notes_text_def note_block_def)
qed

lemma digit_chars: "\<forall>k\<in>set [0..<10]. digit_char k = ''0123456789'' ! k"
  by code_simp

lemma str_nat_digits:
  "str_nat k = (if k < 10 then [''0123456789'' ! k]
                else str_nat (k div 10) @ [''0123456789'' ! (k mod 10)])"
proof -
  have d: "digit_char j = ''0123456789'' ! j" if "j < 10" for j
    using digit_chars that by simp
  show ?thesis
  proof (cases "k < 10")
    case True
    then show ?thesis by (simp add: str_nat.simps [of k] d)
  next
    case False
    have "k mod 10 < 10" by simp
    from d [OF this] False show ?thesis by (simp add: str_nat.simps [of k])
  qed
qed

lemma review_prompt_text:
  "review_prompt t x =
     [CHR 0x0A]
     @ ''Based on the following personal reading notes for the book '' @ [CHR 0x22] @ t
     @ [CHR 0x22] @ '', write a thoughtful and comprehensive book review. '' @ [CHR 0x0A]
     @ [CHR 0x0A]
     @ ''Reading Notes:'' @ [CHR 0x0A]
     @ x @ [CHR 0x0A]
     @ [CHR 0x0A]
     @ ''Please write a review that covers:'' @ [CHR 0x0A]
     @ ''1. Overall impression and rating'' @ [CHR 0x0A]
     @ ''2. Key themes and main ideas'' @ [CHR 0x0A]
     @ ''3. Strengths and notable aspects'' @ [CHR 0x0A]
     @ ''4. Any criticisms or weaknesses mentioned'' @ [CHR 0x0A]
     @ ''5. Personal takeaways and recommendations'' @ [CHR 0x0A]
     @ [CHR 0x0A]
     @ ''Write in a personal, engaging tone as if the reader took these notes themselves. ''
     @ ''Keep it concise but insightful (200-400 words).'' @ [CHR 0x0A]
     @ ''        ''"
  by (simp add: review_prompt_def prompt_head_def prompt_tail_def nl_def)

lemma notes_text_Nil: "notes_text [] = []"
  by (simp add: notes_text_def)

text \<open>
  Claim C5. With a current book that has no notes the review command answers "no notes"
  and changes nothing. With notes, the language model is asked exactly \<^verbatim>\<open>review_prompt\<close>
  of the title and \<^verbatim>\<open>notes_text\<close> of the notes. \<^verbatim>\<open>review_prompt\<close> is the fixed instruction
  text, spelled out in the statement, around the title and the notes text. \<^verbatim>\<open>notes_text\<close>
  adds, for the note at position \<open>i\<close> counted from 0, the block \<^verbatim>\<open>Note {i+1}: {content}\<close>
  after the blocks of the earlier notes and a blank line (two line feeds); the number is
  written in decimal digits. So the blocks of two notes stand in the prompt in the order of
  the notes, and the prompt depends on the title and the contents of the notes only. For
  the contents A and B and the title T the whole prompt is spelled out: it holds
  \<^verbatim>\<open>Note 1: A\<close>, a blank line and \<^verbatim>\<open>Note 2: B\<close>.
\<close>

theorem compose_review_prompt:
  "(get_current_book d uid = Some bk \<and> book_notes bk = [] \<longrightarrow>
      generate_review_command d uid llm now = (d, NoNotesFound (title bk))) \<and>
   (get_current_book d uid = Some bk \<and> book_notes bk \<noteq> [] \<longrightarrow>
      generate_review_command d uid llm now =
        (case llm (review_prompt (title bk) (notes_text (book_notes bk))) of
           None \<Rightarrow> (d, ReviewFailed)
         | Some r \<Rightarrow>
             (d\<lparr>books_collection :=
                  update_one (by_id (book_id bk)) (save_review (strip r) now) (books_collection d)\<rparr>,
              ReviewSent (title bk) (length (book_notes bk)) (strip r)))) \<and>
   review_prompt t x =
     [CHR 0x0A]
     @ ''Based on the following personal reading notes for the book '' @ [CHR 0x22] @ t
     @ [CHR 0x22] @ '', write a thoughtful and comprehensive book review. '' @ [CHR 0x0A]
     @ [CHR 0x0A]
     @ ''Reading Notes:'' @ [CHR 0x0A]
     @ x @ [CHR 0x0A]
     @ [CHR 0x0A]
     @ ''Please write a review that covers:'' @ [CHR 0x0A]
     @ ''1. Overall impression and rating'' @ [CHR 0x0A]
     @ ''2. Key themes and main ideas'' @ [CHR 0x0A]
     @ ''3. Strengths and notable aspects'' @ [CHR 0x0A]
     @ ''4. Any criticisms or weaknesses mentioned'' @ [CHR 0x0A]
     @ ''5. Personal takeaways and recommendations'' @ [CHR 0x0A]
     @ [CHR 0x0A]
     @ ''Write in a personal, engaging tone as if the reader took these notes themselves. ''
     @ ''Keep it concise but insightful (200-400 words).'' @ [CHR 0x0A]
     @ ''        '' \<and>
   notes_text [] = [] \<and>
   notes_text (ns @ [n]) =
     (if ns = [] then ''Note '' @ str_nat 1 @ '': '' @ content n
      else notes_text ns @ [CHR 0x0A, CHR 0x0A]
           @ ''Note '' @ str_nat (length ns + 1) @ '': '' @ content n) \<and>
   str_nat k =
     (if k < 10 then [''0123456789'' ! k]
      else str_nat (k div 10) @ [''0123456789'' ! (k mod 10)]) \<and>
   (\<forall>i j. i < j \<and> j < length ns \<longrightarrow>
      (\<exists>p q r. review_prompt t (notes_text ns) =
         p @ (''Note '' @ str_nat (i + 1) @ '': '' @ content (ns ! i)) @ q @
         (''Note '' @ str_nat (j + 1) @ '': '' @ content (ns ! j)) @ r)) \<and>
   (map content ns = map content ns' \<longrightarrow>
      review_prompt t (notes_text ns) = review_prompt t (notes_text ns')) \<and>
   (content a = ''A'' \<and> content b = ''B'' \<longrightarrow>
      review_prompt ''T'' (notes_text [a, b]) =
        [CHR 0x0A]
        @ ''Based on the following personal reading notes for the book '' @ [CHR 0x22] @ ''T''
        @ [CHR 0x22] @ '', write a thoughtful and comprehensive book review. '' @ [CHR 0x0A]
        @ [CHR 0x0A]
        @ ''Reading Notes:'' @ [CHR 0x0A]
        @ ''Note 1: A'' @ [CHR 0x0A]
        @ [CHR 0x0A]
        @ ''Note 2: B'' @ [CHR 0x0A]
        @ [CHR 0x0A]
        @ ''Please write a review that covers:'' @ [CHR 0x0A]
        @ ''1. Overall impression and rating'' @ [CHR 0x0A]
        @ ''2. Key themes and main ideas'' @ [CHR 0x0A]
        @ ''3. Strengths and notable aspects'' @ [CHR 0x0A]
        @ ''4. Any criticisms or weaknesses mentioned'' @ [CHR 0x0A]
        @ ''5. Personal takeaways and recommendations'' @ [CHR 0x0A]
        @ [CHR 0x0A]
        @ ''Write in a personal, engaging tone as if the reader took these notes themselves. ''
        @ ''Keep it concise but insightful (200-400 words).'' @ [CHR 0x0A]
        @ ''        '')"
proof (intro conjI allI impI)
  assume "get_current_book d uid = Some bk \<and> book_notes bk = []"
  then show "generate_review_command d uid llm now = (d, NoNotesFound (title bk))"
    by (simp add: review_command_prompt)
next
  assume "get_current_book d uid = Some bk \<and> book_notes bk \<noteq> []"
  then show "generate_review_command d uid llm now =
        (case llm (review_prompt (title bk) (notes_text (book_notes bk))) of
           None \<Rightarrow> (d, ReviewFailed)
         | Some r \<Rightarrow>
             (d\<lparr>books_collection :=
                  update_one (by_id (book_id bk)) (save_review (strip r) now) (books_collection d)\<rparr>,
              ReviewSent (title bk) (length (book_notes bk)) (strip r)))"
    by (simp add: review_command_prompt)
next
  show "notes_text [] = []" by (rule notes_text_Nil)
next
  show "notes_text (ns @ [n]) =
     (if ns = [] then ''Note '' @ str_nat 1 @ '': '' @ content n
      else notes_text ns @ [CHR 0x0A, CHR 0x0A]
           @ ''Note '' @ str_nat (length ns + 1) @ '': '' @ content n)"
    by (simp add: notes_text_snoc note_block_def nl_def)
next
  show "str_nat k =
     (if k < 10 then [''0123456789'' ! k]
      else str_nat (k div 10) @ [''0123456789'' ! (k mod 10)])"
    by (rule str_nat_digits)
next
  fix i j
  assume "i < j \<and> j < length ns"
  then obtain p q r
    where e: "notes_text ns = p @ note_block i (ns ! i) @ q @ note_block j (ns ! j) @ r"
    using notes_text_blocks [of i j ns] by blast
  have "review_prompt t (notes_text ns) =
      (prompt_head t @ p) @ note_block i (ns ! i) @ q @ note_block j (ns ! j) @ (r @ prompt_tail)"
    unfolding review_prompt_def e by simp
  then show "\<exists>p q r. review_prompt t (notes_text ns) =
         p @ (''Note '' @ str_nat (i + 1) @ '': '' @ content (ns ! i)) @ q @
         (''Note '' @ str_nat (j + 1) @ '': '' @ content (ns ! j)) @ r"
    unfolding note_block_def by blast
next
  assume "map content ns = map content ns'"
  then show "review_prompt t (notes_text ns) = review_prompt t (notes_text ns')"
    using notes_text_contents [of ns ns'] by simp
next
  assume "content a = ''A'' \<and> content b = ''B''"
  then have "notes_text [a, b] = ''Note 1: A'' @ nl @ nl @ ''Note 2: B''"
    by (simp add: notes_text_AB)
  then show "review_prompt ''T'' (notes_text [a, b]) =
        [CHR 0x0A]
        @ ''Based on the following personal reading notes for the book '' @ [CHR 0x22] @ ''T''
        @ [CHR 0x22] @ '', write a thoughtful and comprehensive book review. '' @ [CHR 0x0A]
        @ [CHR 0x0A]
        @ ''Reading Notes:'' @ [CHR 0x0A]
        @ ''Note 1: A'' @ [CHR 0x0A]
        @ [CHR 0x0A]
        @ ''Note 2: B'' @ [CHR 0x0A]
        @ [CHR 0x0A]
        @ ''Please write a review that covers:'' @ [CHR 0x0A]
        @ ''1. Overall impression and rating'' @ [CHR 0x0A]
        @ ''2. Key themes and main ideas'' @ [CHR 0x0A]
        @ ''3. Strengths and notable aspects'' @ [CHR 0x0A]
        @ ''4. Any criticisms or weaknesses mentioned'' @ [CHR 0x0A]
        @ ''5. Personal takeaways and recommendations'' @ [CHR 0x0A]
        @ [CHR 0x0A]
        @ ''Write in a personal, engaging tone as if the reader took these notes themselves. ''
        @ ''Keep it concise but insightful (200-400 words).'' @ [CHR 0x0A]
        @ ''        ''"
    by (simp add: review_prompt_text nl_def)
qed (rule review_prompt_text)

theorem compose_review_prompt_witness:
  "get_current_book reading_db 1 = Some dune \<and> book_notes dune = [] \<and>
   generate_review_command reading_db 1 echo_llm 40 = (reading_db, NoNotesFound ''Dune'') \<and>
   get_current_book noted_db 1 = Some (dune\<lparr>title := ''T'', book_notes := [note_a, note_b]\<rparr>) \<and>
   content note_a = ''A'' \<and> content note_b = ''B'' \<and>
   review_prompt ''T'' (notes_text [note_a, note_b]) =
     [CHR 0x0A]
     @ ''Based on the following personal reading notes for the book '' @ [CHR 0x22] @ ''T''
     @ [CHR 0x22] @ '', write a thoughtful and comprehensive book review. '' @ [CHR 0x0A]
     @ [CHR 0x0A]
     @ ''Reading Notes:'' @ [CHR 0x0A]
     @ ''Note 1: A'' @ [CHR 0x0A]
     @ [CHR 0x0A]
     @ ''Note 2: B'' @ [CHR 0x0A]
     @ [CHR 0x0A]
     @ ''Please write a review that covers:'' @ [CHR 0x0A]
     @ ''1. Overall impression and rating'' @ [CHR 0x0A]
     @ ''2. Key themes and main ideas'' @ [CHR 0x0A]
     @ ''3. Strengths and notable aspects'' @ [CHR 0x0A]
     @ ''4. Any criticisms or weaknesses mentioned'' @ [CHR 0x0A]
     @ ''5. Personal takeaways and recommendations'' @ [CHR 0x0A]
     @ [CHR 0x0A]
     @ ''Write in a personal, engaging tone as if the reader took these notes themselves. ''
     @ ''Keep it concise but insightful (200-400 words).'' @ [CHR 0x0A]
     @ ''        '' \<and>
   generate_review_command noted_db 1 echo_llm 40 =
     (noted_db\<lparr>books_collection :=
        [dune\<lparr>title := ''T'', book_notes := [note_a, note_b],
              ai_review := Some (''Based on the following personal reading notes for the book '' @ [CHR 0x22] @ ''T''
     @ [CHR 0x22] @ '', write a thoughtful and comprehensive book review. '' @ [CHR 0x0A]
     @ [CHR 0x0A]
     @ ''Reading Notes:'' @ [CHR 0x0A]
     @ ''Note 1: A'' @ [CHR 0x0A]
     @ [CHR 0x0A]
     @ ''Note 2: B'' @ [CHR 0x0A]
     @ [CHR 0x0A]
     @ ''Please write a review that covers:'' @ [CHR 0x0A]
     @ ''1. Overall impression and rating'' @ [CHR 0x0A]
     @ ''2. Key themes and main ideas'' @ [CHR 0x0A]
     @ ''3. Strengths and notable aspects'' @ [CHR 0x0A]
     @ ''4. Any criticisms or weaknesses mentioned'' @ [CHR 0x0A]
     @ ''5. Personal takeaways and recommendations'' @ [CHR 0x0A]
     @ [CHR 0x0A]
     @ ''Write in a personal, engaging tone as if the reader took these notes themselves. ''
     @ ''Keep it concise but insightful (200-400 words).''),
              review_generated_at := Some 40\<rparr>]\<rparr>,
      ReviewSent ''T'' 2 (''Based on the following personal reading notes for the book '' @ [CHR 0x22] @ ''T''
     @ [CHR 0x22] @ '', write a thoughtful and comprehensive book review. '' @ [CHR 0x0A]
     @ [CHR 0x0A]
     @ ''Reading Notes:'' @ [CHR 0x0A]
     @ ''Note 1: A'' @ [CHR 0x0A]
     @ [CHR 0x0A]
     @ ''Note 2: B'' @ [CHR 0x0A]
     @ [CHR 0x0A]
     @ ''Please write a review that covers:'' @ [CHR 0x0A]
     @ ''1. Overall impression and rating'' @ [CHR 0x0A]
     @ ''2. Key themes and main ideas'' @ [CHR 0x0A]
     @ ''3. Strengths and notable aspects'' @ [CHR 0x0A]
     @ ''4. Any criticisms or weaknesses mentioned'' @ [CHR 0x0A]
     @ ''5. Personal takeaways and recommendations'' @ [CHR 0x0A]
     @ [CHR 0x0A]
     @ ''Write in a personal, engaging tone as if the reader took these notes themselves. ''
     @ ''Keep it concise but insightful (200-400 words).'')) \<and>
   (0::nat) < 1 \<and> 1 < length [note_a, note_b] \<and>
   (\<exists>p q r. review_prompt ''T'' (notes_text [note_a, note_b]) =
      p @ (''Note '' @ str_nat (0 + 1) @ '': '' @ content ([note_a, note_b] ! 0)) @ q @
      (''Note '' @ str_nat (1 + 1) @ '': '' @ content ([note_a, note_b] ! 1)) @ r) \<and>
   map content [note_a, note_b] = map content [note_a\<lparr>note_type := Voice\<rparr>, note_b\<lparr>timestamp := 99\<rparr>] \<and>
   review_prompt ''T'' (notes_text [note_a, note_b]) =
     review_prompt ''T'' (notes_text [note_a\<lparr>note_type := Voice\<rparr>, note_b\<lparr>timestamp := 99\<rparr>])"
proof -
  let ?full = "[CHR 0x0A]
     @ ''Based on the following personal reading notes for the book '' @ [CHR 0x22] @ ''T''
     @ [CHR 0x22] @ '', write a thoughtful and comprehensive book review. '' @ [CHR 0x0A]
     @ [CHR 0x0A]
     @ ''Reading Notes:'' @ [CHR 0x0A]
     @ ''Note 1: A'' @ [CHR 0x0A]
     @ [CHR 0x0A]
     @ ''Note 2: B'' @ [CHR 0x0A]
     @ [CHR 0x0A]
     @ ''Please write a review that covers:'' @ [CHR 0x0A]
     @ ''1. Overall impression and rating'' @ [CHR 0x0A]
     @ ''2. Key themes and main ideas'' @ [CHR 0x0A]
     @ ''3. Strengths and notable aspects'' @ [CHR 0x0A]
     @ ''4. Any criticisms or weaknesses mentioned'' @ [CHR 0x0A]
     @ ''5. Personal takeaways and recommendations'' @ [CHR 0x0A]
     @ [CHR 0x0A]
     @ ''Write in a personal, engaging tone as if the reader took these notes themselves. ''
     @ ''Keep it concise but insightful (200-400 words).'' @ [CHR 0x0A]
     @ ''        ''"
  let ?stripped = "''Based on the following personal reading notes for the book '' @ [CHR 0x22] @ ''T''
     @ [CHR 0x22] @ '', write a thoughtful and comprehensive book review. '' @ [CHR 0x0A]
     @ [CHR 0x0A]
     @ ''Reading Notes:'' @ [CHR 0x0A]
     @ ''Note 1: A'' @ [CHR 0x0A]
     @ [CHR 0x0A]
     @ ''Note 2: B'' @ [CHR 0x0A]
     @ [CHR 0x0A]
     @ ''Please write a review that covers:'' @ [CHR 0x0A]
     @ ''1. Overall impression and rating'' @ [CHR 0x0A]
     @ ''2. Key themes and main ideas'' @ [CHR 0x0A]
     @ ''3. Strengths and notable aspects'' @ [CHR 0x0A]
     @ ''4. Any criticisms or weaknesses mentioned'' @ [CHR 0x0A]
     @ ''5. Personal takeaways and recommendations'' @ [CHR 0x0A]
     @ [CHR 0x0A]
     @ ''Write in a personal, engaging tone as if the reader took these notes themselves. ''
     @ ''Keep it concise but insightful (200-400 words).''"
  have h1: "get_current_book reading_db 1 = Some dune \<and> book_notes dune = []" by code_simp
  have h2: "get_current_book noted_db 1 = Some (dune\<lparr>title := ''T'', book_notes := [note_a, note_b]\<rparr>)"
    by code_simp
  have h2': "book_notes (dune\<lparr>title := ''T'', book_notes := [note_a, note_b]\<rparr>) \<noteq> []" by simp
  have h3: "(0::nat) < 1 \<and> 1 < length [note_a, note_b]" by simp
  have h4: "map content [note_a, note_b] =
      map content [note_a\<lparr>note_type := Voice\<rparr>, note_b\<lparr>timestamp := 99\<rparr>]" by simp
  have h5: "content note_a = ''A'' \<and> content note_b = ''B''" by (simp add: note_a_def note_b_def)
  note t1 = compose_review_prompt [of reading_db 1 dune echo_llm 40 "''T''" "[]"
      "[note_a, note_b]" note_a 0 "[note_a\<lparr>note_type := Voice\<rparr>, note_b\<lparr>timestamp := 99\<rparr>]"
      note_a note_b]
  note t2 = compose_review_prompt [of noted_db 1 "dune\<lparr>title := ''T'', book_notes := [note_a, note_b]\<rparr>"
      echo_llm 40 "''T''" "[]" "[]" note_a 0 "[]" note_a note_b]
  from t1 h1 have c1: "generate_review_command reading_db 1 echo_llm 40 =
      (reading_db, NoNotesFound ''Dune'')" by (simp add: dune_def)
  from t1 h5 have full: "review_prompt ''T'' (notes_text [note_a, note_b]) = ?full" by blast
  have st: "strip ?full = ?stripped" by code_simp
  have e: "strip (review_prompt ''T'' (notes_text [note_a, note_b])) = ?stripped"
    unfolding full by (rule st)
  note imp = t2 [THEN conjunct2, THEN conjunct1, THEN mp, OF conjI [OF h2 h2']]
  have c2: "generate_review_command noted_db 1 echo_llm 40 =
     (noted_db\<lparr>books_collection :=
        [dune\<lparr>title := ''T'', book_notes := [note_a, note_b],
              ai_review := Some ?stripped,
              review_generated_at := Some 40\<rparr>]\<rparr>,
      ReviewSent ''T'' 2 ?stripped)"
    unfolding imp
    by (simp add: echo_llm_def e noted_db_def by_id_def save_review_def dune_def)
  from t1 h3 have c3: "\<exists>p q r. review_prompt ''T'' (notes_text [note_a, note_b]) =
      p @ (''Note '' @ str_nat (0 + 1) @ '': '' @ content ([note_a, note_b] ! 0)) @ q @
      (''Note '' @ str_nat (1 + 1) @ '': '' @ content ([note_a, note_b] ! 1)) @ r" by blast
  from t1 h4 have c4: "review_prompt ''T'' (notes_text [note_a, note_b]) =
     review_prompt ''T'' (notes_text [note_a\<lparr>note_type := Voice\<rparr>, note_b\<lparr>timestamp := 99\<rparr>])"
    by blast
  from h1 c1 h2 h5 full c2 h3 c3 h4 c4 show ?thesis by blast
qed

subsection \<open>C8: a failed generation\<close>

lemma review_no_current:
  "get_current_book d uid = None \<Longrightarrow> generate_review_command d uid llm now = (d, NoActiveBook)"
  by (simp add: generate_review_command_def)

text \<open>
  Claim C8. When the call of the language model fails, the review command answers with
  the failure message and the store is as it was, so \<^verbatim>\<open>ai_review\<close> and
  \<^verbatim>\<open>review_generated_at\<close> of every book are unchanged. The store changes only when the
  call returned a text: then the one update saves the stripped text and the clock reading
  in the current book.
\<close>

theorem failed_generation_keeps_store:
  "(get_current_book d uid = Some bk \<and> book_notes bk \<noteq> [] \<and>
    llm (review_prompt (title bk) (notes_text (book_notes bk))) = None \<longrightarrow>
      generate_review_command d uid llm now = (d, ReviewFailed)) \<and>
   (fst (generate_review_command d uid llm now) \<noteq> d \<longrightarrow>
      (\<exists>b r. get_current_book d uid = Some b \<and> book_notes b \<noteq> [] \<and>
         llm (review_prompt (title b) (notes_text (book_notes b))) = Some r \<and>
         generate_review_command d uid llm now =
           (d\<lparr>books_collection :=
                update_one (by_id (book_id b)) (save_review (strip r) now) (books_collection d)\<rparr>,
            ReviewSent (title b) (length (book_notes b)) (strip r))))"
proof (intro conjI impI)
  assume "get_current_book d uid = Some bk \<and> book_notes bk \<noteq> [] \<and>
    llm (review_prompt (title bk) (notes_text (book_notes bk))) = None"
  then show "generate_review_command d uid llm now = (d, ReviewFailed)"
    by (simp add: review_command_prompt)
next
  assume ch: "fst (generate_review_command d uid llm now) \<noteq> d"
  then obtain b where b: "get_current_book d uid = Some b"
    using review_no_current [of d uid llm now] by (cases "get_current_book d uid") auto
  note c = review_command_prompt [OF b, of llm now]
  from ch c have ne: "book_notes b \<noteq> []" by auto
  with ch c obtain r where r: "llm (review_prompt (title b) (notes_text (book_notes b))) = Some r"
    by (cases "llm (review_prompt (title b) (notes_text (book_notes b)))") auto
  from c ne r have "generate_review_command d uid llm now =
           (d\<lparr>books_collection :=
                update_one (by_id (book_id b)) (save_review (strip r) now) (books_collection d)\<rparr>,
            ReviewSent (title b) (length (book_notes b)) (strip r))" by simp
  with b ne r show "\<exists>b r. get_current_book d uid = Some b \<and> book_notes b \<noteq> [] \<and>
         llm (review_prompt (title b) (notes_text (book_notes b))) = Some r \<and>
         generate_review_command d uid llm now =
           (d\<lparr>books_collection :=
                update_one (by_id (book_id b)) (save_review (strip r) now) (books_collection d)\<rparr>,
            ReviewSent (title b) (length (book_notes b)) (strip r))" by blast
qed

theorem failed_generation_keeps_store_witness:
  "get_current_book noted_db 1 = Some (dune\<lparr>title := ''T'', book_notes := [note_a, note_b]\<rparr>) \<and>
   book_notes (dune\<lparr>title := ''T'', book_notes := [note_a, note_b]\<rparr>) \<noteq> [] \<and>
   failing_llm (review_prompt ''T'' (notes_text [note_a, note_b])) = None \<and>
   generate_review_command noted_db 1 failing_llm 40 = (noted_db, ReviewFailed) \<and>
   fst (generate_review_command noted_db 1 stub_llm 40) \<noteq> noted_db \<and>
   (\<exists>b r. get_current_book noted_db 1 = Some b \<and> book_notes b \<noteq> [] \<and>
         stub_llm (review_prompt (title b) (notes_text (book_notes b))) = Some r \<and>
         generate_review_command noted_db 1 stub_llm 40 =
           (noted_db\<lparr>books_collection :=
                update_one (by_id (book_id b)) (save_review (strip r) 40) (books_collection noted_db)\<rparr>,
            ReviewSent (title b) (length (book_notes b)) (strip r)))"
proof -
  have h1: "get_current_book noted_db 1 = Some (dune\<lparr>title := ''T'', book_notes := [note_a, note_b]\<rparr>)"
    by code_simp
  have h2: "book_notes (dune\<lparr>title := ''T'', book_notes := [note_a, note_b]\<rparr>) \<noteq> []" by simp
  have h3: "failing_llm (review_prompt ''T'' (notes_text [note_a, note_b])) = None"
    by (simp add: failing_llm_def)
  have h4: "fst (generate_review_command noted_db 1 stub_llm 40) \<noteq> noted_db"
    using h1 by (simp add: review_command_prompt stub_llm_def noted_db_def by_id_def
        save_review_def dune_def)
  from failed_generation_keeps_store
    [of noted_db 1 "dune\<lparr>title := ''T'', book_notes := [note_a, note_b]\<rparr>" failing_llm 40] h1 h2 h3
  have c1: "generate_review_command noted_db 1 failing_llm 40 = (noted_db, ReviewFailed)" by simp
  from failed_generation_keeps_store [of noted_db 1 dune stub_llm 40] h4
  have c2: "\<exists>b r. get_current_book noted_db 1 = Some b \<and> book_notes b \<noteq> [] \<and>
         stub_llm (review_prompt (title b) (notes_text (book_notes b))) = Some r \<and>
         generate_review_command noted_db 1 stub_llm 40 =
           (noted_db\<lparr>books_collection :=
                update_one (by_id (book_id b)) (save_review (strip r) 40) (books_collection noted_db)\<rparr>,
            ReviewSent (title b) (length (book_notes b)) (strip r))" by blast
  from h1 h2 h3 c1 h4 c2 show ?thesis by blast
qed

subsection \<open>C7: \<^verbatim>\<open>/start\<close> upserts the user\<close>

lemma find_one_None_filter: "(find_one p xs = None) = (filter p xs = [])"
  by (induction xs) (auto simp: find_one_def)

lemma length_filter_update_same:
  "(\<And>x. p (f x) = p x) \<Longrightarrow> length (filter p (update_one p f xs)) = length (filter p xs)"
  by (induction xs) auto

lemma filter_update_other_user:
  "v \<noteq> uid \<Longrightarrow> (\<And>u. user_id (f u) = user_id u) \<Longrightarrow>
   filter (by_user v) (update_one (by_user uid) f us) = filter (by_user v) us"
  by (induction us) (auto simp: by_user_def)

lemma find_one_single: "find_one p [x] = (if p x then Some x else None)"
  by (simp add: find_one_def)

lemma find_update_same:
  "(\<And>x. p (f x) = p x) \<Longrightarrow> find_one p (update_one p f xs) = map_option f (find_one p xs)"
  by (induction xs) (auto simp: find_one_def)

lemma start_users:
  "users_collection (fst (start_command d uid un now now')) =
     (if find_one (by_user uid) (users_collection d) = None
      then users_collection d @ [fresh_user uid un now now']
      else update_one (by_user uid) (\<lambda>u. u\<lparr>username := display_name un, last_active := now\<rparr>)
             (users_collection d))"
  by (simp add: start_command_def upsert_one_def fresh_user_def)

lemma start_count:
  "length (filter (by_user uid) (users_collection (fst (start_command d uid un now now')))) =
     (if filter (by_user uid) (users_collection d) = [] then 1
      else length (filter (by_user uid) (users_collection d)))"
  by (simp add: start_users find_one_None_filter length_filter_update_same by_user_def
      fresh_user_def)

lemma start_find:
  "find_one (by_user uid) (users_collection (fst (start_command d uid un now now'))) =
     Some (case find_one (by_user uid) (users_collection d) of
             None \<Rightarrow> fresh_user uid un now now'
           | Some u \<Rightarrow> u\<lparr>username := display_name un, last_active := now\<rparr>)"
  by (cases "find_one (by_user uid) (users_collection d)")
     (simp_all add: start_users find_one_append find_one_single find_update_same by_user_def
        fresh_user_def)

lemma start_others:
  "v \<noteq> uid \<Longrightarrow>
   filter (by_user v) (users_collection (fst (start_command d uid un now now'))) =
   filter (by_user v) (users_collection d)"
  by (simp add: start_users filter_update_other_user fresh_user_def) (simp add: by_user_def)

lemma start_books:
  "books_collection (fst (start_command d uid un now now')) = books_collection d"
  by (simp add: start_command_def)

lemma run_starts_count:
  "length (filter (by_user uid) (users_collection (run d (start_calls uid calls)))) =
     (if calls = [] then length (filter (by_user uid) (users_collection d))
      else max 1 (length (filter (by_user uid) (users_collection d))))"
proof (induction calls arbitrary: d)
  case Nil
  then show ?case by (simp add: start_calls_def)
next
  case (Cons c calls)
  obtain un now now' where c: "c = (un, now, now')" by (cases c)
  have "run d (start_calls uid (c # calls)) =
      run (fst (start_command d uid un now now')) (start_calls uid calls)"
    by (simp add: start_calls_def c)
  then show ?case
    using Cons.IH [of "fst (start_command d uid un now now')"]
    by (simp add: start_count max_def Suc_le_eq)
qed

lemma run_starts_current:
  "map_option current_book_id
     (find_one (by_user uid) (users_collection (run d (start_calls uid calls)))) =
     (if calls = [] then map_option current_book_id (find_one (by_user uid) (users_collection d))
      else Some (case find_one (by_user uid) (users_collection d) of
                   None \<Rightarrow> None | Some u \<Rightarrow> current_book_id u))"
proof (induction calls arbitrary: d)
  case Nil
  then show ?case by (simp add: start_calls_def)
next
  case (Cons c calls)
  obtain un now now' where c: "c = (un, now, now')" by (cases c)
  have "run d (start_calls uid (c # calls)) =
      run (fst (start_command d uid un now now')) (start_calls uid calls)"
    by (simp add: start_calls_def c)
  then show ?case
    using Cons.IH [of "fst (start_command d uid un now now')"]
    by (simp add: start_find fresh_user_def split: option.splits)
qed

lemma run_starts_last:
  "calls \<noteq> [] \<Longrightarrow>
   map_option (\<lambda>u. (username u, last_active u))
     (find_one (by_user uid) (users_collection (run d (start_calls uid calls)))) =
     Some (display_name (fst (last calls)), fst (snd (last calls)))"
proof (induction calls arbitrary: d)
  case Nil
  then show ?case by simp
next
  case (Cons c calls)
  obtain un now now' where c: "c = (un, now, now')" by (cases c)
  have r: "run d (start_calls uid (c # calls)) =
      run (fst (start_command d uid un now now')) (start_calls uid calls)"
    by (simp add: start_calls_def c)
  show ?case
  proof (cases "calls = []")
    case True
    then show ?thesis
      by (simp add: r start_calls_def start_find c fresh_user_def split: option.splits)
  next
    case False
    with Cons.IH [of "fst (start_command d uid un now now')"] show ?thesis
      by (simp add: r)
  qed
qed

text \<open>
  Claim C7. \<^verbatim>\<open>start_command\<close> adds a user document only when the user has none: the
  number of documents of the user goes from 0 to 1 and otherwise stays. The stored name is
  the user name of the update, or \<^verbatim>\<open>Anonymous\<close> when the update has none. The first
  document of the user afterwards is the new one, with that name, the clock readings and
  no current book, or the old one with \<^verbatim>\<open>username\<close> and \<^verbatim>\<open>last_active\<close> set to the name and
  the clock reading of the update and every other field, \<^verbatim>\<open>current_book_id\<close> included, as
  it was. The documents of other users and the books are untouched. After any non-empty
  series of \<^verbatim>\<open>/start\<close> updates of a user the number of the user's documents is the greater
  of 1 and the number before, so exactly one for a user who had none or one; the
  \<^verbatim>\<open>current_book_id\<close> is the one before the series (none for a new user), and the name and
  \<^verbatim>\<open>last_active\<close> are those of the last update.
\<close>

theorem ensure_user_idempotent:
  "length (filter (by_user uid) (users_collection (fst (start_command d uid un now now')))) =
     (if filter (by_user uid) (users_collection d) = [] then 1
      else length (filter (by_user uid) (users_collection d))) \<and>
   find_one (by_user uid) (users_collection (fst (start_command d uid un now now'))) =
     Some (case find_one (by_user uid) (users_collection d) of
             None \<Rightarrow>
               \<lparr>user_id = uid,
                username = (case un of None \<Rightarrow> ''Anonymous'' | Some s \<Rightarrow> if s = [] then ''Anonymous'' else s),
                last_active = now, user_created_at = now', current_book_id = None\<rparr>
           | Some u \<Rightarrow>
               u\<lparr>username := (case un of None \<Rightarrow> ''Anonymous'' | Some s \<Rightarrow> if s = [] then ''Anonymous'' else s),
                 last_active := now\<rparr>) \<and>
   (\<forall>v. v \<noteq> uid \<longrightarrow>
      filter (by_user v) (users_collection (fst (start_command d uid un now now'))) =
      filter (by_user v) (users_collection d)) \<and>
   books_collection (fst (start_command d uid un now now')) = books_collection d \<and>
   (calls \<noteq> [] \<longrightarrow>
      length (filter (by_user uid) (users_collection (run d (map (\<lambda>(un, now, now'). Start uid un now now') calls)))) =
        max 1 (length (filter (by_user uid) (users_collection d))) \<and>
      map_option current_book_id
        (find_one (by_user uid) (users_collection (run d (map (\<lambda>(un, now, now'). Start uid un now now') calls)))) =
        Some (case find_one (by_user uid) (users_collection d) of
                None \<Rightarrow> None | Some u \<Rightarrow> current_book_id u) \<and>
      map_option (\<lambda>u. (username u, last_active u))
        (find_one (by_user uid) (users_collection (run d (map (\<lambda>(un, now, now'). Start uid un now now') calls)))) =
        Some ((case fst (last calls) of None \<Rightarrow> ''Anonymous''
              | Some s \<Rightarrow> if s = [] then ''Anonymous'' else s),
              fst (snd (last calls))))"
proof (intro conjI allI impI)
  show "length (filter (by_user uid) (users_collection (fst (start_command d uid un now now')))) =
     (if filter (by_user uid) (users_collection d) = [] then 1
      else length (filter (by_user uid) (users_collection d)))"
    by (rule start_count)
  show "find_one (by_user uid) (users_collection (fst (start_command d uid un now now'))) =
     Some (case find_one (by_user uid) (users_collection d) of
             None \<Rightarrow>
               \<lparr>user_id = uid,
                username = (case un of None \<Rightarrow> ''Anonymous'' | Some s \<Rightarrow> if s = [] then ''Anonymous'' else s),
                last_active = now, user_created_at = now', current_book_id = None\<rparr>
           | Some u \<Rightarrow>
               u\<lparr>username := (case un of None \<Rightarrow> ''Anonymous'' | Some s \<Rightarrow> if s = [] then ''Anonymous'' else s),
                 last_active := now\<rparr>)"
    using start_find [of uid d un now now'] unfolding fresh_user_def display_name_def .
  show "books_collection (fst (start_command d uid un now now')) = books_collection d"
    by (rule start_books)
next
  fix v
  assume "v \<noteq> uid"
  then show "filter (by_user v) (users_collection (fst (start_command d uid un now now'))) =
      filter (by_user v) (users_collection d)"
    by (rule start_others)
next
  assume ne: "calls \<noteq> []"
  then show "length (filter (by_user uid) (users_collection (run d (map (\<lambda>(un, now, now'). Start uid un now now') calls)))) =
        max 1 (length (filter (by_user uid) (users_collection d)))"
    using run_starts_count [of uid d calls] unfolding start_calls_def by simp
  from ne show "map_option current_book_id
        (find_one (by_user uid) (users_collection (run d (map (\<lambda>(un, now, now'). Start uid un now now') calls)))) =
        Some (case find_one (by_user uid) (users_collection d) of
                None \<Rightarrow> None | Some u \<Rightarrow> current_book_id u)"
    using run_starts_current [of uid d calls] unfolding start_calls_def by simp
  from ne show "map_option (\<lambda>u. (username u, last_active u))
        (find_one (by_user uid) (users_collection (run d (map (\<lambda>(un, now, now'). Start uid un now now') calls)))) =
        Some ((case fst (last calls) of None \<Rightarrow> ''Anonymous''
              | Some s \<Rightarrow> if s = [] then ''Anonymous'' else s),
              fst (snd (last calls)))"
    using run_starts_last [of calls uid d] unfolding start_calls_def display_name_def by blast
qed

theorem ensure_user_idempotent_witness:
  "find_one (by_user 1) (users_collection (fst (start_command reading_db 1 (Some ''anna'') 50 51))) =
     Some \<lparr>user_id = 1, username = ''anna'', last_active = 50, user_created_at = 1,
           current_book_id = Some (Oid 12 0)\<rparr> \<and>
   find_one (by_user 7) (users_collection (fst (start_command reading_db 7 None 50 51))) =
     Some \<lparr>user_id = 7, username = ''Anonymous'', last_active = 50, user_created_at = 51,
           current_book_id = None\<rparr> \<and>
   length (filter (by_user 7) (users_collection (fst (start_command reading_db 7 None 50 51)))) = 1 \<and>
   (2::int) \<noteq> 1 \<and>
   filter (by_user 2) (users_collection (fst (start_command reading_db 1 (Some ''anna'') 50 51))) =
     filter (by_user 2) (users_collection reading_db) \<and>
   [(None, 50, 51), (Some ''anna'', 60, 61)] \<noteq> [] \<and>
   length (filter (by_user 1)
      (users_collection
         (run reading_db
            (map (\<lambda>(un, now, now'). Start 1 un now now')
               [(None, 50, 51), (Some ''anna'', 60, 61)])))) = 1 \<and>
   map_option current_book_id
     (find_one (by_user 1)
        (users_collection
           (run reading_db
              (map (\<lambda>(un, now, now'). Start 1 un now now')
                 [(None, 50, 51), (Some ''anna'', 60, 61)])))) =
     Some (Some (Oid 12 0)) \<and>
   map_option (\<lambda>u. (username u, last_active u))
     (find_one (by_user 1)
        (users_collection
           (run reading_db
              (map (\<lambda>(un, now, now'). Start 1 un now now')
                 [(None, 50, 51), (Some ''anna'', 60, 61)])))) =
     Some (''anna'', 60)"
proof -
  have h1: "(2::int) \<noteq> 1" by simp
  have h2: "[(None, 50::nat, 51::nat), (Some ''anna'', 60, 61)] \<noteq> []" by simp
  have f: "find_one (by_user 1) (users_collection reading_db) = Some ann" by code_simp
  have f7: "find_one (by_user 7) (users_collection reading_db) = None" by code_simp
  have n: "length (filter (by_user 1) (users_collection reading_db)) = 1" by code_simp
  have n7: "filter (by_user 7) (users_collection reading_db) = []" by code_simp
  note t1 = ensure_user_idempotent
    [of 1 reading_db "Some ''anna''" 50 51 "[(None, 50, 51), (Some ''anna'', 60, 61)]"]
  note t7 = ensure_user_idempotent [of 7 reading_db None 50 51 "[]"]
  from t1 f have c1: "find_one (by_user 1)
      (users_collection (fst (start_command reading_db 1 (Some ''anna'') 50 51))) =
     Some \<lparr>user_id = 1, username = ''anna'', last_active = 50, user_created_at = 1,
           current_book_id = Some (Oid 12 0)\<rparr>" by (simp add: ann_def)
  from t7 f7 have c2: "find_one (by_user 7)
      (users_collection (fst (start_command reading_db 7 None 50 51))) =
     Some \<lparr>user_id = 7, username = ''Anonymous'', last_active = 50, user_created_at = 51,
           current_book_id = None\<rparr>" by simp
  from t7 n7 have c3: "length (filter (by_user 7)
      (users_collection (fst (start_command reading_db 7 None 50 51)))) = 1" by simp
  from t1 h1 have c4: "filter (by_user 2)
      (users_collection (fst (start_command reading_db 1 (Some ''anna'') 50 51))) =
     filter (by_user 2) (users_collection reading_db)" by blast
  note s = t1 [THEN conjunct2, THEN conjunct2, THEN conjunct2, THEN conjunct2, THEN mp, OF h2]
  from s n have c5: "length (filter (by_user 1)
      (users_collection
         (run reading_db
            (map (\<lambda>(un, now, now'). Start 1 un now now')
               [(None, 50, 51), (Some ''anna'', 60, 61)])))) = 1" by simp
  from s f have c6: "map_option current_book_id
     (find_one (by_user 1)
        (users_collection
           (run reading_db
              (map (\<lambda>(un, now, now'). Start 1 un now now')
                 [(None, 50, 51), (Some ''anna'', 60, 61)])))) =
     Some (Some (Oid 12 0))" by (simp add: ann_def)
  from s have c7: "map_option (\<lambda>u. (username u, last_active u))
     (find_one (by_user 1)
        (users_collection
           (run reading_db
              (map (\<lambda>(un, now, now'). Start 1 un now now')
                 [(None, 50, 51), (Some ''anna'', 60, 61)])))) =
     Some (''anna'', 60)" by simp
  from c1 c2 c3 h1 c4 h2 c5 c6 c7 show ?thesis by blast
qed

subsection \<open>C6: the statistics\<close>

lemma max_from_first:
  "\<exists>pre post. best # xs = pre @ max_from key best xs # post \<and>
     (\<forall>x\<in>set pre. key x < key (max_from key best xs)) \<and>
     (\<forall>x\<in>set post. key x \<le> key (max_from key best xs))"
proof (induction xs arbitrary: best)
  case Nil
  have "[best] = [] @ max_from key best [] # [] \<and>
     (\<forall>x\<in>set []. key x < key (max_from key best [])) \<and>
     (\<forall>x\<in>set []. key x \<le> key (max_from key best []))" by simp
  then show ?case by blast
next
  case (Cons x xs)
  show ?case
  proof (cases "key best < key x")
    case True
    let ?m = "max_from key x xs"
    from Cons.IH [of x] obtain pre post
      where s: "x # xs = pre @ ?m # post"
        and lt: "\<forall>y\<in>set pre. key y < key ?m"
        and le: "\<forall>y\<in>set post. key y \<le> key ?m" by blast
    have "key x \<le> key ?m"
    proof (cases pre)
      case Nil
      from s have "x # xs = ?m # post" unfolding Nil by (simp only: append_Nil)
      then have "key x = key ?m" by (metis list.inject)
      then show ?thesis by simp
    next
      case (Cons p ps)
      with s have "x = p" by simp
      with lt Cons show ?thesis by simp
    qed
    with True have kb: "key best < key ?m" by simp
    have mx: "max_from key best (x # xs) = ?m" using True by simp
    have e: "best # x # xs = (best # pre) @ ?m # post" using s by simp
    have l: "\<forall>y\<in>set (best # pre). key y < key ?m" using lt kb by simp
    from e l le show ?thesis unfolding mx by blast
  next
    case False
    let ?m = "max_from key best xs"
    from Cons.IH [of best] obtain pre post
      where s: "best # xs = pre @ ?m # post"
        and lt: "\<forall>y\<in>set pre. key y < key ?m"
        and le: "\<forall>y\<in>set post. key y \<le> key ?m" by blast
    show ?thesis
    proof (cases pre)
      case Nil
      from s have "best # xs = ?m # post" unfolding Nil by (simp only: append_Nil)
      then have m: "?m = best" and p: "post = xs" by (metis list.inject)+
      have mx: "max_from key best (x # xs) = best" using False m by simp
      have e: "best # x # xs = [] @ best # (x # xs)" by simp
      have l: "\<forall>y\<in>set []. key y < key best" by simp
      have g: "\<forall>y\<in>set (x # xs). key y \<le> key best" using le False m p by auto
      from e l g show ?thesis unfolding mx by blast
    next
      case (Cons p ps)
      from s have "best # xs = p # (ps @ ?m # post)" unfolding Cons by (simp only: append_Cons)
      then have pb: "p = best" and xs: "xs = ps @ ?m # post" by (metis list.inject)+
      from lt Cons pb have kb: "key best < key ?m" by simp
      with False have kx: "key x < key ?m" by simp
      have mx: "max_from key best (x # xs) = ?m" using False by simp
      have e: "best # x # xs = (best # x # ps) @ ?m # post" using xs by simp
      have l: "\<forall>y\<in>set (best # x # ps). key y < key ?m" using lt Cons kb kx by simp
      from e l le show ?thesis unfolding mx by blast
    qed
  qed
qed

lemma most_noted_first:
  assumes "bks \<noteq> []"
  shows "\<exists>pre m post. most_noted_book bks = Inr m \<and> bks = pre @ m # post \<and>
     (\<forall>x\<in>set pre. length (book_notes x) < length (book_notes m)) \<and>
     (\<forall>x\<in>set post. length (book_notes x) \<le> length (book_notes m))"
proof -
  from assms obtain b bs where bks: "bks = b # bs" by (cases bks) auto
  let ?m = "max_from (\<lambda>b. length (book_notes b)) b bs"
  from max_from_first [of b bs "\<lambda>b. length (book_notes b)"] obtain pre post
    where "b # bs = pre @ ?m # post"
      "\<forall>x\<in>set pre. length (book_notes x) < length (book_notes ?m)"
      "\<forall>x\<in>set post. length (book_notes x) \<le> length (book_notes ?m)" by blast
  moreover have "most_noted_book bks = Inr ?m"
    by (simp add: most_noted_book_def py_max_def bks)
  ultimately show ?thesis using bks by blast
qed

lemma reading_count:
  "length bks - length (filter (\<lambda>b. status b = Finished) bks) =
   length (filter (\<lambda>b. status b = Reading) bks)"
proof -
  have eq: "(\<lambda>b. status b = Reading) = (\<lambda>b. status b \<noteq> Finished)"
  proof (rule ext)
    fix b
    show "(status b = Reading) = (status b \<noteq> Finished)" by (cases "status b") simp_all
  qed
  have f: "filter (\<lambda>b. status b = Reading) bks = filter (\<lambda>b. status b \<noteq> Finished) bks"
    unfolding eq by (rule refl)
  have "length (filter (\<lambda>b. status b = Finished) bks) +
      length (filter (\<lambda>b. status b = Reading) bks) = length bks"
    unfolding f by (rule sum_length_filter_compl)
  then show ?thesis by arith
qed

lemma first_is_earliest:
  assumes "sorted (map created_at (pre @ m # post))"
    and "\<forall>x\<in>set pre. length (book_notes x) < length (book_notes m)"
    and "x \<in> set (pre @ m # post)"
    and "length (book_notes x) = length (book_notes m)"
  shows "created_at m \<le> created_at x"
proof -
  from assms(2,4) have "x \<notin> set pre" by auto
  with assms(3) have "x = m \<or> x \<in> set post" by auto
  moreover from assms(1) have "\<forall>y\<in>set post. created_at m \<le> created_at y"
    by (simp add: sorted_append)
  ultimately show ?thesis by auto
qed

text \<open>
  The creation times of the books in the store are, in store order, the clock readings of
  the \<^verbatim>\<open>/newbook\<close> updates that created them. When those readings never decrease, the books
  of a user are in the order of their \<^verbatim>\<open>created_at\<close>.
\<close>

lemma map_created_update:
  "(\<And>b. created_at (f b) = created_at b) \<Longrightarrow>
   map created_at (update_one p f bs) = map created_at bs"
  by (induction bs) auto

lemma created_at_writes [simp]:
  "created_at (push_note n b) = created_at b"
  "created_at (save_review r t b) = created_at b"
  "created_at (mark_finished t b) = created_at b"
  by (simp_all add: push_note_def save_review_def mark_finished_def)

lemma step_created_at:
  "map created_at (books_collection (fst (step d ev))) =
   map created_at (books_collection d) @ created_by ev"
  by (cases ev)
     (auto simp: handler_defs insert_book_def Let_def map_created_update
           split: option.splits sum.splits list.splits prod.splits)

lemma run_created_at:
  "map created_at (books_collection (run d evs)) =
   map created_at (books_collection d) @ concat (map created_by evs)"
  by (induction evs arbitrary: d) (simp_all add: step_created_at)

lemma monotone_clock_sorted:
  assumes "sorted (concat (map created_by evs))"
  shows "sorted (map created_at (filter (by_owner uid) (books_collection (run empty_db evs))))"
proof -
  from assms have "sorted (map created_at (books_collection (run empty_db evs)))"
    by (simp add: run_created_at empty_db_def)
  then show ?thesis by (rule sorted_filter)
qed

text \<open>
  \<^verbatim>\<open>stats_command\<close> does not read \<^verbatim>\<open>created_at\<close>: among the books with the most notes
  \<^verbatim>\<open>max\<close> keeps the one that the store returns first. When the clock steps back between
  two \<^verbatim>\<open>/newbook\<close>, the book stored first is not the one created earliest.
\<close>

theorem stats_tie_counterexample:
  "run empty_db [Start 1 (Some ''ann'') 1 1, NewBook 1 [''Late''] 20, NewBook 1 [''Early''] 10] =
     \<lparr>books_collection =
        [\<lparr>book_id = Oid 12 0, owner_id = 1, title = ''Late'', book_notes = [], status = Reading,
          created_at = 20, finished_at = None, ai_review = None,
          review_generated_at = None\<rparr>,
         \<lparr>book_id = Oid 12 1, owner_id = 1, title = ''Early'', book_notes = [], status = Reading,
          created_at = 10, finished_at = None, ai_review = None,
          review_generated_at = None\<rparr>],
      users_collection =
        [\<lparr>user_id = 1, username = ''ann'', last_active = 1, user_created_at = 1,
          current_book_id = Some (Oid 12 1)\<rparr>],
      next_oid = 2\<rparr> \<and>
   snd (stats_command
          (run empty_db
             [Start 1 (Some ''ann'') 1 1, NewBook 1 [''Late''] 20, NewBook 1 [''Early''] 10]) 1) =
     Stats 2 0 2 0 ''Late'' 0"
  by code_simp

text \<open>
  Claim C6, amended. For a user without books \<^verbatim>\<open>stats_command\<close> answers "no stats"
  and changes nothing. Otherwise it reports the number of the user's books, of the
  finished ones, of the ones being read, the number of all their notes, and the title and
  number of notes of the most noted book \<open>m\<close>. Ties are broken by store order: \<open>m\<close> is the
  first book, in the order the store returns the user's books, with the greatest number
  of notes; the books before it have fewer notes, the books after it no more. When the
  user's books are stored in the order of their \<^verbatim>\<open>created_at\<close> (the clock did not step back
  between two \<^verbatim>\<open>/newbook\<close>), \<open>m\<close> is created no later than any other book with as many
  notes.
\<close>

theorem compute_stats:
  "(filter (by_owner uid) (books_collection d) = [] \<longrightarrow> stats_command d uid = (d, NoStats)) \<and>
   (filter (by_owner uid) (books_collection d) \<noteq> [] \<longrightarrow>
      (\<exists>pre m post.
         filter (by_owner uid) (books_collection d) = pre @ m # post \<and>
         (\<forall>x\<in>set pre. length (book_notes x) < length (book_notes m)) \<and>
         (\<forall>x\<in>set post. length (book_notes x) \<le> length (book_notes m)) \<and>
         stats_command d uid =
           (d, Stats (length (filter (by_owner uid) (books_collection d)))
                 (length (filter (\<lambda>b. status b = Finished)
                    (filter (by_owner uid) (books_collection d))))
                 (length (filter (\<lambda>b. status b = Reading)
                    (filter (by_owner uid) (books_collection d))))
                 (sum_list (map (\<lambda>b. length (book_notes b))
                    (filter (by_owner uid) (books_collection d))))
                 (title m) (length (book_notes m))) \<and>
         (sorted (map created_at (filter (by_owner uid) (books_collection d))) \<longrightarrow>
            (\<forall>x\<in>set (filter (by_owner uid) (books_collection d)).
               length (book_notes x) = length (book_notes m) \<longrightarrow>
               created_at m \<le> created_at x))))"
proof (intro conjI impI)
  assume "filter (by_owner uid) (books_collection d) = []"
  then show "stats_command d uid = (d, NoStats)" by (simp add: stats_command_def)
next
  let ?bks = "filter (by_owner uid) (books_collection d)"
  assume ne: "?bks \<noteq> []"
  from most_noted_first [OF ne] obtain pre m post
    where m: "most_noted_book ?bks = Inr m" and s: "?bks = pre @ m # post"
      and lt: "\<forall>x\<in>set pre. length (book_notes x) < length (book_notes m)"
      and le: "\<forall>x\<in>set post. length (book_notes x) \<le> length (book_notes m)" by blast
  have r: "stats_command d uid =
           (d, Stats (length ?bks) (length (filter (\<lambda>b. status b = Finished) ?bks))
                 (length (filter (\<lambda>b. status b = Reading) ?bks))
                 (sum_list (map (\<lambda>b. length (book_notes b)) ?bks))
                 (title m) (length (book_notes m)))"
    using ne m reading_count [of ?bks] by (simp add: stats_command_def Let_def)
  have e: "\<forall>x\<in>set ?bks. length (book_notes x) = length (book_notes m) \<longrightarrow>
               created_at m \<le> created_at x" if "sorted (map created_at ?bks)"
    using that first_is_earliest [of pre m post] lt unfolding s by blast
  from s lt le r e
  show "\<exists>pre m post.
         ?bks = pre @ m # post \<and>
         (\<forall>x\<in>set pre. length (book_notes x) < length (book_notes m)) \<and>
         (\<forall>x\<in>set post. length (book_notes x) \<le> length (book_notes m)) \<and>
         stats_command d uid =
           (d, Stats (length ?bks) (length (filter (\<lambda>b. status b = Finished) ?bks))
                 (length (filter (\<lambda>b. status b = Reading) ?bks))
                 (sum_list (map (\<lambda>b. length (book_notes b)) ?bks))
                 (title m) (length (book_notes m))) \<and>
         (sorted (map created_at ?bks) \<longrightarrow>
            (\<forall>x\<in>set ?bks. length (book_notes x) = length (book_notes m) \<longrightarrow>
               created_at m \<le> created_at x))"
    by blast
qed

theorem compute_stats_witness:
  "filter (by_owner 1) (books_collection empty_db) = [] \<and>
   stats_command empty_db 1 = (empty_db, NoStats) \<and>
   filter (by_owner 1) (books_collection tie_db) = [book_A, book_B] \<and>
   sorted (map created_at [book_A, book_B]) \<and>
   length (book_notes book_A) = length (book_notes book_B) \<and>
   stats_command tie_db 1 = (tie_db, Stats 2 0 2 2 ''A'' 1)"
proof -
  have h1: "filter (by_owner 1) (books_collection empty_db) = []" by code_simp
  have f: "filter (by_owner 1) (books_collection tie_db) = [book_A, book_B]" by code_simp
  have so: "sorted (map created_at [book_A, book_B])" by (simp add: book_A_def book_B_def)
  have tie: "length (book_notes book_A) = length (book_notes book_B)"
    by (simp add: book_A_def book_B_def)
  from compute_stats [of 1 empty_db] h1
  have c1: "stats_command empty_db 1 = (empty_db, NoStats)" by blast
  have ne: "[book_A, book_B] \<noteq> []" by simp
  note t = compute_stats [of 1 tie_db, unfolded f, THEN conjunct2, THEN mp, OF ne]
  then obtain pre m post
    where s: "[book_A, book_B] = pre @ m # post"
      and r: "stats_command tie_db 1 =
           (tie_db, Stats (length [book_A, book_B])
                 (length (filter (\<lambda>b. status b = Finished) [book_A, book_B]))
                 (length (filter (\<lambda>b. status b = Reading) [book_A, book_B]))
                 (sum_list (map (\<lambda>b. length (book_notes b)) [book_A, book_B]))
                 (title m) (length (book_notes m)))"
      and i: "sorted (map created_at [book_A, book_B]) \<longrightarrow>
            (\<forall>x\<in>set [book_A, book_B].
               length (book_notes x) = length (book_notes m) \<longrightarrow> created_at m \<le> created_at x)"
    by blast
  from i so have e: "\<forall>x\<in>set [book_A, book_B].
               length (book_notes x) = length (book_notes m) \<longrightarrow> created_at m \<le> created_at x"
    by blast
  from s have "m \<in> set [book_A, book_B]" by (metis in_set_conv_decomp)
  then have "m = book_A \<or> m = book_B" by simp
  moreover have "m \<noteq> book_B"
  proof
    assume "m = book_B"
    with e tie have "created_at book_B \<le> created_at book_A" by simp
    then show False by (simp add: book_A_def book_B_def)
  qed
  ultimately have "m = book_A" by simp
  with r have c2: "stats_command tie_db 1 = (tie_db, Stats 2 0 2 2 ''A'' 1)"
    by (simp add: book_A_def book_B_def)
  from h1 c1 f so tie c2 show ?thesis by blast
qed

subsection \<open>C1: starting a book\<close>

lemma find_one_None_iff: "(find_one p xs = None) = (\<forall>x\<in>set xs. \<not> p x)"
  by (auto simp: find_one_def find_None_iff)

lemma new_book_result:
  assumes "args \<noteq> []"
  shows "new_book_command d uid args now =
     (\<lparr>books_collection = books_collection d @ [started_book d uid args now],
       users_collection =
         update_one (by_user uid) (\<lambda>u. u\<lparr>current_book_id := Some (Oid 12 (next_oid d))\<rparr>)
           (users_collection d),
       next_oid = Suc (next_oid d)\<rparr>,
      StartedTracking (py_join '' '' args))"
  using assms by (simp add: new_book_command_def insert_book_def started_book_def Let_def)

lemma new_book_makes_current:
  assumes "ids_fresh d" and "find_one (by_user uid) (users_collection d) = Some u"
    and "args \<noteq> []"
  shows "get_current_book (fst (new_book_command d uid args now)) uid =
           Some (started_book d uid args now) \<and>
         books_collection (fst (new_book_command d uid args now)) =
           books_collection d @ [started_book d uid args now] \<and>
         snd (new_book_command d uid args now) = StartedTracking (py_join '' '' args)"
proof -
  from assms(1) have "find_one (by_id (Oid 12 (next_oid d))) (books_collection d) = None"
    by (auto simp: find_one_None_iff ids_fresh_def by_id_def)
  then have "find_one (by_id (Oid 12 (next_oid d))) (books_collection d @ [started_book d uid args now]) =
      Some (started_book d uid args now)"
    by (simp add: find_one_append find_one_single by_id_def started_book_def)
  with assms(2,3) show ?thesis
    by (simp add: new_book_result get_current_book_def find_update_user)
qed

lemma new_book_without_user:
  assumes "find_one (by_user uid) (users_collection d) = None"
  shows "get_current_book (fst (new_book_command d uid args now)) uid = None"
proof (cases "args = []")
  case True
  with assms show ?thesis by (simp add: new_book_command_def get_current_book_def)
next
  case False
  with assms show ?thesis
    by (simp add: new_book_result get_current_book_def find_one_None_update)
qed

lemma step_keeps_user:
  assumes "find_one (by_user uid) (users_collection d) \<noteq> None"
  shows "find_one (by_user uid) (users_collection (fst (step d ev))) \<noteq> None"
  using assms
  by (cases ev)
     (auto simp: handler_defs insert_book_def Let_def find_update_user find_one_append upsert_one_def
           split: option.splits sum.splits list.splits prod.splits)

lemma run_keeps_user:
  "find_one (by_user uid) (users_collection d) \<noteq> None \<Longrightarrow>
   find_one (by_user uid) (users_collection (run d evs)) \<noteq> None"
proof (induction evs arbitrary: d)
  case Nil
  then show ?case by simp
next
  case (Cons ev evs)
  from step_keeps_user [OF Cons.prems, of ev]
  have "find_one (by_user uid) (users_collection (run (fst (step d ev)) evs)) \<noteq> None"
    by (rule Cons.IH)
  then show ?case by simp
qed

lemma run_append: "run d (xs @ ys) = run (run d xs) ys"
  by (induction xs arbitrary: d) simp_all

lemma nth_new_book_is_current:
  assumes "ids_fresh d" and "find_one (by_user uid) (users_collection d) \<noteq> None"
    and "args \<noteq> []"
  shows "get_current_book (run d (evs @ [NewBook uid args now])) uid =
           Some (started_book (run d evs) uid args now) \<and>
         books_collection (run d (evs @ [NewBook uid args now])) =
           books_collection (run d evs) @ [started_book (run d evs) uid args now]"
proof -
  from assms(1) have f: "ids_fresh (run d evs)" by (rule run_ids_fresh)
  from assms(2) obtain u where u: "find_one (by_user uid) (users_collection (run d evs)) = Some u"
    using run_keeps_user [of uid d evs] by auto
  from new_book_makes_current [OF f u assms(3), of now] show ?thesis
    by (simp add: run_append)
qed

text \<open>
  Claim C1. \<^verbatim>\<open>/newbook\<close> with a title inserts a new book (Reading, no notes) owned by the
  sender, leaves every stored book as it is, and sets the sender's \<^verbatim>\<open>current_book_id\<close> to
  the new book by an update of the sender's user document that is not an upsert. For a
  sender with a user document the new book is the current book afterwards, also at the
  end of any run of events (\<open>new_book_makes_current\<close>, \<open>nth_new_book_is_current\<close>). For a
  sender with no user document, one who never sent \<^verbatim>\<open>/start\<close>, the update matches nothing
  (\<open>new_book_without_user\<close>): the book is stored and the answer says it is the active
  book, but \<^verbatim>\<open>get_current_book\<close> finds none and the next note is refused. The theorem
  evaluates the handlers on that input.
\<close>

theorem new_book_without_user_document:
  "new_book_command empty_db 7 [''Dune''] 100 =
     (\<lparr>books_collection =
         [\<lparr>book_id = Oid 12 0, owner_id = 7, title = ''Dune'', book_notes = [], status = Reading,
           created_at = 100, finished_at = None, ai_review = None,
           review_generated_at = None\<rparr>],
       users_collection = [], next_oid = 1\<rparr>,
      StartedTracking ''Dune'') \<and>
   get_current_book (fst (new_book_command empty_db 7 [''Dune''] 100)) 7 = None \<and>
   snd (handle_text_note (fst (new_book_command empty_db 7 [''Dune''] 100)) 7
          ''great opening'' 5 110) = NoActiveBook"
  by code_simp

end
